theory Spec2Isabelle
  imports Main "HOL-Library.Sublist" "HOL-Library.AList" "HOL-Library.Multiset"
    "HOL-Library.Char_ord"
begin

section \<open>Strings\<close>

text \<open>
  A Go string is a sequence of bytes; \<^typ>\<open>string\<close> is a list of 8-bit characters.
  The functions of Go's package \<^verbatim>\<open>strings\<close> that the program calls are written out
  here on bytes. Where Go decodes UTF-8 (white space, upper case), the non-ASCII
  runes concerned are given by their encodings.
\<close>

text \<open>\<^verbatim>\<open>strings.Split(s, sep)\<close> for a separator of one byte: never an empty list.\<close>

fun Split :: "string \<Rightarrow> char \<Rightarrow> string list" where
  "Split [] sep = [[]]"
| "Split (c # cs) sep =
     (if c = sep then [] # Split cs sep
      else (case Split cs sep of p # ps \<Rightarrow> (c # p) # ps | [] \<Rightarrow> [[c]]))"

text \<open>\<^verbatim>\<open>strings.Join(parts, sep)\<close>.\<close>

fun Join :: "string list \<Rightarrow> string \<Rightarrow> string" where
  "Join [] sep = []"
| "Join [p] sep = p"
| "Join (p # q # ps) sep = p @ sep @ Join (q # ps) sep"

text \<open>\<^verbatim>\<open>strings.ReplaceAll(s, old, new)\<close> for an \<^verbatim>\<open>old\<close> of one byte.\<close>

definition ReplaceAll :: "string \<Rightarrow> char \<Rightarrow> string \<Rightarrow> string" where
  "ReplaceAll s old new = concat (map (\<lambda>c. if c = old then new else [c]) s)"

definition HasPrefix :: "string \<Rightarrow> string \<Rightarrow> bool" where
  "HasPrefix s p = prefix p s"

definition HasSuffix :: "string \<Rightarrow> string \<Rightarrow> bool" where
  "HasSuffix s p = suffix p s"

definition Contains :: "string \<Rightarrow> string \<Rightarrow> bool" where
  "Contains s sub = sublist sub s"

text \<open>
  The white space of \<^verbatim>\<open>unicode.IsSpace\<close>, as UTF-8: the six ASCII characters
  (tab, line feed, vertical tab, form feed, carriage return, space), then U+0085,
  U+00A0, U+1680, U+2000 to U+200A, U+2028, U+2029, U+202F, U+205F and U+3000.
\<close>

definition space_runes :: "string list" where
  "space_runes =
     [[CHR 0x09], [CHR 0x0A], [CHR 0x0B], [CHR 0x0C], [CHR 0x0D], [CHR 0x20],
      [CHR 0xC2, CHR 0x85], [CHR 0xC2, CHR 0xA0],
      [CHR 0xE1, CHR 0x9A, CHR 0x80],
      [CHR 0xE2, CHR 0x80, CHR 0x80], [CHR 0xE2, CHR 0x80, CHR 0x81],
      [CHR 0xE2, CHR 0x80, CHR 0x82], [CHR 0xE2, CHR 0x80, CHR 0x83],
      [CHR 0xE2, CHR 0x80, CHR 0x84], [CHR 0xE2, CHR 0x80, CHR 0x85],
      [CHR 0xE2, CHR 0x80, CHR 0x86], [CHR 0xE2, CHR 0x80, CHR 0x87],
      [CHR 0xE2, CHR 0x80, CHR 0x88], [CHR 0xE2, CHR 0x80, CHR 0x89],
      [CHR 0xE2, CHR 0x80, CHR 0x8A],
      [CHR 0xE2, CHR 0x80, CHR 0xA8], [CHR 0xE2, CHR 0x80, CHR 0xA9],
      [CHR 0xE2, CHR 0x80, CHR 0xAF], [CHR 0xE2, CHR 0x81, CHR 0x9F],
      [CHR 0xE3, CHR 0x80, CHR 0x80]]"

text \<open>
  \<^verbatim>\<open>strings.TrimSpace\<close>: white-space runes are removed from the front, then from
  the back of what is left. A byte that does not start (or end) the encoding of a
  white-space rune stops the scan, an invalid one included.
\<close>

function trim_left :: "string \<Rightarrow> string" where
  "trim_left s =
     (case filter (\<lambda>w. prefix w s) space_runes of
        [] \<Rightarrow> s
      | w # _ \<Rightarrow> if w = [] then s else trim_left (drop (length w) s))"
  by pat_completeness auto
termination
proof (relation "measure length")
  show "wf (measure length)" by simp
next
  fix s :: string and w ws
  assume f: "filter (\<lambda>w. prefix w s) space_runes = w # ws" and ne: "w \<noteq> []"
  have "w \<in> set (filter (\<lambda>w. prefix w s) space_runes)"
    by (simp add: f)
  then have "prefix w s" by simp
  with ne have "s \<noteq> []" by auto
  with ne show "(drop (length w) s, s) \<in> measure length" by simp
qed

function trim_right :: "string \<Rightarrow> string" where
  "trim_right s =
     (case filter (\<lambda>w. suffix w s) space_runes of
        [] \<Rightarrow> s
      | w # _ \<Rightarrow> if w = [] then s else trim_right (take (length s - length w) s))"
  by pat_completeness auto
termination
proof (relation "measure length")
  show "wf (measure length)" by simp
next
  fix s :: string and w ws
  assume f: "filter (\<lambda>w. suffix w s) space_runes = w # ws" and ne: "w \<noteq> []"
  have "w \<in> set (filter (\<lambda>w. suffix w s) space_runes)"
    by (simp add: f)
  then have "suffix w s" by simp
  with ne have "s \<noteq> []" by auto
  with ne show "(take (length s - length w) s, s) \<in> measure length" by simp
qed

declare trim_left.simps [simp del] trim_right.simps [simp del]

definition TrimSpace :: "string \<Rightarrow> string" where
  "TrimSpace s = trim_right (trim_left s)"

text \<open>
  \<^verbatim>\<open>strings.ToUpper\<close>, as far as a search for ASCII text in its result can tell: the
  ASCII letters are mapped to upper case, and so are the two other runes whose
  upper case is an ASCII letter, U+0131 (to \<open>I\<close>) and U+017F (to \<open>S\<close>), given by their
  encodings. Go maps every other non-ASCII letter to a non-ASCII rune and an
  invalid byte to U+FFFD; here those bytes are kept as they are.
\<close>

definition ascii_upper :: "char \<Rightarrow> char" where
  "ascii_upper c =
     (case map_of (zip ''abcdefghijklmnopqrstuvwxyz'' ''ABCDEFGHIJKLMNOPQRSTUVWXYZ'') c of
        Some u \<Rightarrow> u | None \<Rightarrow> c)"

definition ascii_lower :: "char \<Rightarrow> char" where
  "ascii_lower c =
     (case map_of (zip ''ABCDEFGHIJKLMNOPQRSTUVWXYZ'' ''abcdefghijklmnopqrstuvwxyz'') c of
        Some l \<Rightarrow> l | None \<Rightarrow> c)"

fun ToUpper :: "string \<Rightarrow> string" where
  "ToUpper [] = []"
| "ToUpper [c] = [ascii_upper c]"
| "ToUpper (c # d # cs) =
     (if c = CHR 0xC4 \<and> d = CHR 0xB1 then CHR ''I'' # ToUpper cs
      else if c = CHR 0xC5 \<and> d = CHR 0xBF then CHR ''S'' # ToUpper cs
      else ascii_upper c # ToUpper (d # cs))"

section \<open>Identifier model (identifier.go)\<close>

record QualifiedName =
  Database :: string
  Schema :: string
  Table :: string

definition NormalizeBrackets :: "string \<Rightarrow> string" where
  "NormalizeBrackets identifier =
     ReplaceAll (ReplaceAll identifier (CHR ''['') []) (CHR '']'') []"

text \<open>
  The \<^verbatim>\<open>switch len(parts)\<close> of the source, case by case. \<^verbatim>\<open>strings.Split\<close> returns
  at least one part, so the \<^verbatim>\<open>default\<close> branch is entered with four parts or more;
  with none it would leave the result empty.
\<close>

definition ParseQualifiedName :: "string \<Rightarrow> QualifiedName" where
  "ParseQualifiedName fullName =
     (let normalized = NormalizeBrackets fullName;
          parts = Split normalized (CHR ''.'');
          n = length parts
      in if n = 1 then \<lparr>Database = [], Schema = [], Table = parts ! 0\<rparr>
         else if n = 2 then \<lparr>Database = [], Schema = parts ! 0, Table = parts ! 1\<rparr>
         else if n = 3 then
           \<lparr>Database = parts ! 0, Schema = parts ! 1, Table = parts ! 2\<rparr>
         else if n > 3 then
           \<lparr>Database = parts ! (n - 3), Schema = parts ! (n - 2), Table = parts ! (n - 1)\<rparr>
         else \<lparr>Database = [], Schema = [], Table = []\<rparr>)"

definition BracketIdentifier :: "string \<Rightarrow> string" where
  "BracketIdentifier identifier =
     (let ident = TrimSpace identifier
      in if ident = [] then ident
         else if HasPrefix ident ''['' \<and> HasSuffix ident '']'' then ident
         else ''['' @ ident @ '']'')"

definition BuildQualifiedName :: "string \<Rightarrow> string \<Rightarrow> string \<Rightarrow> bool \<Rightarrow> string" where
  "BuildQualifiedName table schema database useBrackets =
     (let parts0 = [];
          parts1 = (if database \<noteq> [] then
                      (if useBrackets then parts0 @ [BracketIdentifier database]
                       else parts0 @ [database])
                    else parts0);
          parts2 = (if schema \<noteq> [] then
                      (if useBrackets then parts1 @ [BracketIdentifier schema]
                       else parts1 @ [schema])
                    else parts1);
          parts3 = (if table \<noteq> [] then
                      (if useBrackets then parts2 @ [BracketIdentifier table]
                       else parts2 @ [table])
                    else parts2)
      in Join parts3 ''.'')"

definition StandardizeTableName :: "string \<Rightarrow> string \<Rightarrow> string \<Rightarrow> bool \<Rightarrow> string" where
  "StandardizeTableName tableName defaultDB defaultSchema useBrackets =
     (if tableName = [] then tableName
      else
        let parsed = ParseQualifiedName tableName;
            db = (if Database parsed = [] then defaultDB else Database parsed);
            schema = (if Schema parsed = [] then defaultSchema else Schema parsed);
            table = Table parsed
        in BuildQualifiedName table schema db useBrackets)"

section \<open>Schema data (declared in schema.go)\<close>

text \<open>
  Modelled from the spec: the types \<open>Cardinality\<close>, \<open>Column\<close>, \<open>Constraint\<close>, \<open>Index\<close>,
  \<open>Table\<close>, \<open>Relation\<close>, \<open>Function\<close>, \<open>Driver\<close> and \<open>Schema\<close> are declared in a file
  of the package that is not among the sources; the functions below are. The
  records hold the fields those functions read or write. A Go pointer to a struct
  is modelled by the struct: every \<open>Relation\<close>, \<open>Table\<close> and \<open>Column\<close> the program
  handles comes from the JSON loader or from the constructors below and is not nil.
  The pointers to strings that the code tests against nil are options.
\<close>

datatype Cardinality = UnknownCardinality | ZeroOrOne | ExactlyOne | ZeroOrMore | OneOrMore

record Column =
  col_Name :: string

record Constraint =
  con_Name :: string
  con_Table :: "string option"
  con_ReferencedTable :: "string option"

record Index =
  idx_Name :: string
  idx_Table :: "string option"

text \<open>
  \<open>ReferencedTables\<close> is a list of tables in Go; the code reads only their names and
  rebuilds each as a table with nothing but a name, so the names are kept.
\<close>

record Table =
  tbl_Name :: string
  tbl_Type :: string
  tbl_Def :: string
  tbl_ReferencedTables :: "string list"
  tbl_Constraints :: "Constraint list"
  tbl_Indexes :: "Index list"

text \<open>\<^verbatim>\<open>&Table{Name: n}\<close>: every other field has its zero value.\<close>

definition Table_named :: "string \<Rightarrow> Table" where
  "Table_named n = \<lparr>tbl_Name = n, tbl_Type = [], tbl_Def = [], tbl_ReferencedTables = [],
     tbl_Constraints = [], tbl_Indexes = []\<rparr>"

record Relation =
  rel_Table :: Table
  rel_Columns :: "Column list"
  rel_Cardinality :: Cardinality
  rel_ParentTable :: Table
  rel_ParentColumns :: "Column list"
  rel_ParentCardinality :: Cardinality
  rel_Def :: string
  rel_Virtual :: bool

section \<open>Regular expressions (Go's package regexp)\<close>

text \<open>
  Go's \<^verbatim>\<open>regexp\<close> returns the match that begins leftmost and, among those, the one a
  backtracking search finds first. \<open>rmatch r s caps\<close> lists the ways \<open>r\<close> matches
  at the front of \<open>s\<close>, in the order a backtracking search tries them, each with the
  text left over and the captured groups; the first one is the match.

  Only the operators the two patterns of the program use are there. A repetition is
  over one rune of a class. A class is a predicate on single bytes together with the
  encodings of the non-ASCII runes it contains: with the flag \<^verbatim>\<open>(?i)\<close> Go folds case
  by Unicode, so that \<open>S\<close> and \<open>s\<close> also match U+017F and \<open>K\<close> and \<open>k\<close> also match
  U+212A. The negated class \<^verbatim>\<open>[^;]\<close> is taken byte by byte; what follows it in the
  pattern begins with an ASCII character or is the end of the text, so a match
  never ends inside a rune.
\<close>

datatype re =
    Eps
  | Rune "char \<Rightarrow> bool" "string list"
  | Seq re re
  | Alt re re
  | Opt re
  | Star "char \<Rightarrow> bool" "string list"
  | StarLazy "char \<Rightarrow> bool" "string list"
  | Group nat re
  | EndText

text \<open>One rune of a class at the front of the text: what is left after it.\<close>

fun class_step :: "(char \<Rightarrow> bool) \<Rightarrow> string list \<Rightarrow> string \<Rightarrow> string option" where
  "class_step P ws [] = None"
| "class_step P ws (c # cs) =
     (if P c then Some cs
      else (case filter (\<lambda>w. w \<noteq> [] \<and> prefix w (c # cs)) ws of
              [] \<Rightarrow> None
            | w # _ \<Rightarrow> Some (drop (length w) (c # cs))))"

lemma class_step_shorter: "class_step P ws s = Some s' \<Longrightarrow> length s' < length s"
proof (cases s)
  case Nil
  then show "class_step P ws s = Some s' \<Longrightarrow> ?thesis" by simp
next
  case (Cons c cs)
  assume a: "class_step P ws s = Some s'"
  show ?thesis
  proof (cases "P c")
    case True
    with a Cons show ?thesis by simp
  next
    case False
    with a Cons obtain w rest where f: "filter (\<lambda>w. w \<noteq> [] \<and> prefix w (c # cs)) ws = w # rest"
      and s': "s' = drop (length w) (c # cs)"
      by (auto split: list.splits)
    have "w \<in> set (filter (\<lambda>w. w \<noteq> [] \<and> prefix w (c # cs)) ws)" by (simp add: f)
    then have "w \<noteq> []" by simp
    with s' Cons show ?thesis by simp
  qed
qed

text \<open>\<^verbatim>\<open>x*\<close> prefers more repetitions, \<^verbatim>\<open>x*?\<close> fewer.\<close>

function star_greedy :: "(char \<Rightarrow> bool) \<Rightarrow> string list \<Rightarrow> string \<Rightarrow> string list" where
  "star_greedy P ws s =
     (case class_step P ws s of
        None \<Rightarrow> [s]
      | Some s' \<Rightarrow> star_greedy P ws s' @ [s])"
  by pat_completeness auto
termination
  by (relation "measure (\<lambda>(P, ws, s). length s)") (auto dest: class_step_shorter)

function star_lazy :: "(char \<Rightarrow> bool) \<Rightarrow> string list \<Rightarrow> string \<Rightarrow> string list" where
  "star_lazy P ws s =
     s # (case class_step P ws s of
            None \<Rightarrow> []
          | Some s' \<Rightarrow> star_lazy P ws s')"
  by pat_completeness auto
termination
  by (relation "measure (\<lambda>(P, ws, s). length s)") (auto dest: class_step_shorter)

declare star_greedy.simps [simp del] star_lazy.simps [simp del]

fun rmatch :: "re \<Rightarrow> string \<Rightarrow> string list \<Rightarrow> (string \<times> string list) list" where
  "rmatch Eps s caps = [(s, caps)]"
| "rmatch (Rune P ws) s caps =
     (case class_step P ws s of None \<Rightarrow> [] | Some s' \<Rightarrow> [(s', caps)])"
| "rmatch (Seq a b) s caps = concat (map (\<lambda>(s', caps'). rmatch b s' caps') (rmatch a s caps))"
| "rmatch (Alt a b) s caps = rmatch a s caps @ rmatch b s caps"
| "rmatch (Opt a) s caps = rmatch a s caps @ [(s, caps)]"
| "rmatch (Star P ws) s caps = map (\<lambda>s'. (s', caps)) (star_greedy P ws s)"
| "rmatch (StarLazy P ws) s caps = map (\<lambda>s'. (s', caps)) (star_lazy P ws s)"
| "rmatch (Group i a) s caps =
     map (\<lambda>(s', caps'). (s', caps'[i := take (length s - length s') s])) (rmatch a s caps)"
| "rmatch EndText s caps = (if s = [] then [(s, caps)] else [])"


text \<open>
  The match at the front of \<open>s\<close> for a pattern with \<open>n\<close> groups: the groups, with the
  whole match as group 0 and the empty string for a group that took no part, and
  the text after the match.
\<close>

definition match_at :: "re \<Rightarrow> nat \<Rightarrow> string \<Rightarrow> (string list \<times> string) option" where
  "match_at r n s =
     (case rmatch r s (replicate (Suc n) []) of
        [] \<Rightarrow> None
      | (rest, caps) # _ \<Rightarrow> Some (caps[0 := take (length s - length rest) s], rest))"

text \<open>The leftmost match: the text before it, the groups, the text after it.\<close>

fun search :: "re \<Rightarrow> nat \<Rightarrow> string \<Rightarrow> (string \<times> string list \<times> string) option" where
  "search r n [] =
     (case match_at r n [] of None \<Rightarrow> None | Some (caps, rest) \<Rightarrow> Some ([], caps, rest))"
| "search r n (c # cs) =
     (case match_at r n (c # cs) of
        Some (caps, rest) \<Rightarrow> Some ([], caps, rest)
      | None \<Rightarrow>
          (case search r n cs of
             None \<Rightarrow> None
           | Some (pre, caps, rest) \<Rightarrow> Some (c # pre, caps, rest)))"

text \<open>
  \<^verbatim>\<open>FindAllStringSubmatch(s, -1)\<close>: successive matches that do not overlap. After a
  match the search goes on behind it; an empty match is dropped when it touches the
  match before it (\<open>abut\<close>), and the search then moves on by one position.
\<close>

function find_all :: "re \<Rightarrow> nat \<Rightarrow> string \<Rightarrow> bool \<Rightarrow> string list list" where
  "find_all r n s abut =
     (case search r n s of
        None \<Rightarrow> []
      | Some (pre, caps, rest) \<Rightarrow>
          if length rest < length s then caps # find_all r n rest True
          else (if abut then [] else [caps]) @
               (case s of [] \<Rightarrow> [] | _ # cs \<Rightarrow> find_all r n cs False))"
  by pat_completeness auto
termination
  by (relation "measure (\<lambda>(r, n, s, abut). length s)") auto

definition FindAllStringSubmatch :: "re \<Rightarrow> nat \<Rightarrow> string \<Rightarrow> string list list" where
  "FindAllStringSubmatch r n s = find_all r n s False"

text \<open>
  \<^verbatim>\<open>ReplaceAllString(src, repl)\<close> for a pattern that matches no empty string and a
  replacement without \<^verbatim>\<open>$\<close>, which is how the program calls it. The last branch
  stands for an empty match and is not reached by such a pattern.
\<close>

function ReplaceAllString :: "re \<Rightarrow> string \<Rightarrow> string \<Rightarrow> string" where
  "ReplaceAllString r src repl =
     (case search r 0 src of
        None \<Rightarrow> src
      | Some (pre, caps, rest) \<Rightarrow>
          if length rest < length src - length pre
          then pre @ repl @ ReplaceAllString r rest repl
          else src)"
  by pat_completeness auto
termination
  by (relation "measure (\<lambda>(r, src, repl). length src)") auto

declare find_all.simps [simp del] ReplaceAllString.simps [simp del]

section \<open>Join extractor (sqlparser.go)\<close>

text \<open>The patterns, operator by operator as they are written in the source.\<close>

definition Plus :: "(char \<Rightarrow> bool) \<Rightarrow> string list \<Rightarrow> re" where
  "Plus P ws = Seq (Rune P ws) (Star P ws)"

definition PlusLazy :: "(char \<Rightarrow> bool) \<Rightarrow> string list \<Rightarrow> re" where
  "PlusLazy P ws = Seq (Rune P ws) (StarLazy P ws)"

definition seqs :: "re list \<Rightarrow> re" where
  "seqs rs = foldr Seq rs Eps"

definition alts :: "re list \<Rightarrow> re" where
  "alts rs = foldr Alt rs (Rune (\<lambda>c. False) [])"

definition chr :: "char \<Rightarrow> re" where
  "chr c = Rune (\<lambda>x. x = c) []"

definition ci :: "char \<Rightarrow> re" where
  "ci c = Rune (\<lambda>x. x = ascii_upper c \<or> x = ascii_lower c)
            (if ascii_upper c = CHR ''S'' then [[CHR 0xC5, CHR 0xBF]]
             else if ascii_upper c = CHR ''K'' then [[CHR 0xE2, CHR 0x84, CHR 0xAA]]
             else [])"

definition lit_ci :: "string \<Rightarrow> re" where
  "lit_ci s = seqs (map ci s)"

definition space_cls :: "char \<Rightarrow> bool" where
  "space_cls c \<longleftrightarrow> c \<in> set [CHR 0x09, CHR 0x0A, CHR 0x0C, CHR 0x0D, CHR 0x20]"

definition word_cls :: "char \<Rightarrow> bool" where
  "word_cls c \<longleftrightarrow>
     c \<in> set ''0123456789ABCDEFGHIJKLMNOPQRSTUVWXYZ_abcdefghijklmnopqrstuvwxyz''"

definition fold_runes :: "string list" where
  "fold_runes = [[CHR 0xC5, CHR 0xBF], [CHR 0xE2, CHR 0x84, CHR 0xAA]]"

text \<open>
  \<^verbatim>\<open>(?i)(?:LEFT\s+|RIGHT\s+|INNER\s+|OUTER\s+|CROSS\s+)?(?:OUTER\s+)?JOIN\s+\<close>
  \<^verbatim>\<open>([\[\w\]\.]+)\s+(?:AS\s+)?([\w]+)\s+ON\s+([^;]+?)\<close>
  \<^verbatim>\<open>(?:\s+WHERE|\s+GROUP|\s+ORDER|\s+HAVING|\s+UNION|\s+LEFT|\s+RIGHT|\s+INNER|\s+JOIN|;|\s*$)\<close>
\<close>

definition joinPattern :: re where
  "joinPattern =
     (let sp = Plus space_cls [];
          kw = (\<lambda>w. Seq (lit_ci w) sp)
      in seqs
        [Opt (alts [kw ''LEFT'', kw ''RIGHT'', kw ''INNER'', kw ''OUTER'', kw ''CROSS'']),
         Opt (kw ''OUTER''),
         lit_ci ''JOIN'', sp,
         Group 1 (Plus (\<lambda>c. word_cls c \<or> c \<in> set ''[].'') fold_runes),
         sp,
         Opt (kw ''AS''),
         Group 2 (Plus word_cls fold_runes),
         sp, lit_ci ''ON'', sp,
         Group 3 (PlusLazy (\<lambda>c. c \<noteq> CHR '';'') []),
         alts [Seq sp (lit_ci ''WHERE''), Seq sp (lit_ci ''GROUP''), Seq sp (lit_ci ''ORDER''),
               Seq sp (lit_ci ''HAVING''), Seq sp (lit_ci ''UNION''), Seq sp (lit_ci ''LEFT''),
               Seq sp (lit_ci ''RIGHT''), Seq sp (lit_ci ''INNER''), Seq sp (lit_ci ''JOIN''),
               chr (CHR '';''), Seq (Star space_cls []) EndText]])"

text \<open>\<^verbatim>\<open>(\[?[\w]+\]?)\.(\[?\w+\]?)\s*=\s*(\[?[\w]+\]?)\.(\[?\w+\]?)\<close>\<close>

definition columnPattern :: re where
  "columnPattern =
     (let ident = (\<lambda>i. Group i (seqs [Opt (chr (CHR ''['')), Plus word_cls [], Opt (chr (CHR '']''))]));
          sp0 = Star space_cls []
      in seqs [ident 1, chr (CHR ''.''), ident 2, sp0, chr (CHR ''=''), sp0,
               ident 3, chr (CHR ''.''), ident 4])"

text \<open>\<^verbatim>\<open>\s+\<close>\<close>

definition spacePattern :: re where
  "spacePattern = Plus space_cls []"

record JoinRelation =
  FromTable :: string
  FromColumns :: "string list"
  ToTable :: string
  ToColumns :: "string list"
  JoinType :: string
  OnCondition :: string

text \<open>
  The function returns a slice and no error; a nil slice and an empty one are both
  the empty list. The patterns are constants that compile, so \<^verbatim>\<open>MustCompile\<close> does
  not panic.
\<close>

definition ExtractJoinsFromSQL ::
  "string \<Rightarrow> string \<Rightarrow> string \<Rightarrow> string \<Rightarrow> bool \<Rightarrow> JoinRelation list" where
  "ExtractJoinsFromSQL sqlDef sourceTable defaultDB defaultSchema useBrackets =
     (if sqlDef = [] then []
      else
        let matches = FindAllStringSubmatch joinPattern 3 sqlDef
        in concat (map (\<lambda>match.
             if length match < 4 then []
             else
               let joinedTable = TrimSpace (match ! 1);
                   onCondition = TrimSpace (match ! 3);
                   joinedTableStd =
                     StandardizeTableName joinedTable defaultDB defaultSchema useBrackets;
                   colMatches = FindAllStringSubmatch columnPattern 4 onCondition
               in concat (map (\<lambda>colMatch.
                    if length colMatch < 5 then []
                    else
                      let leftColumn = NormalizeBrackets (TrimSpace (colMatch ! 2));
                          rightColumn = NormalizeBrackets (TrimSpace (colMatch ! 4));
                          matchUpper = ToUpper (match ! 0);
                          joinType =
                            (if Contains matchUpper ''LEFT'' then ''LEFT''
                             else if Contains matchUpper ''RIGHT'' then ''RIGHT''
                             else if Contains matchUpper ''FULL'' then ''FULL''
                             else ''INNER'');
                          cleanCondition0 =
                            ReplaceAll (ReplaceAll onCondition (CHR 0x0A) '' '') (CHR 0x0D) [];
                          cleanCondition =
                            TrimSpace (ReplaceAllString spacePattern cleanCondition0 '' '')
                      in [\<lparr>FromTable = sourceTable, FromColumns = [leftColumn],
                           ToTable = joinedTableStd, ToColumns = [rightColumn],
                           JoinType = joinType, OnCondition = cleanCondition\<rparr>])
                  colMatches))
           matches))"




text \<open>The body of the inner loop of \<open>ExtractRelationsFromDefinitions\<close>.\<close>

definition virtualRelation :: "JoinRelation \<Rightarrow> Relation" where
  "virtualRelation joinInfo =
     (let cards =
            (if JoinType joinInfo = ''LEFT'' then (ZeroOrOne, ZeroOrMore)
             else if JoinType joinInfo = ''RIGHT'' then (ZeroOrMore, ZeroOrOne)
             else (ExactlyOne, ZeroOrMore));
          def0 = OnCondition joinInfo;
          def1 = (if length def0 > 100 then take 100 def0 @ ''...'' else def0);
          def = ''['' @ JoinType joinInfo @ '' JOIN] '' @ def1;
          columns = map (\<lambda>col. \<lparr>col_Name = col\<rparr>) (FromColumns joinInfo);
          parentColumns = map (\<lambda>col. \<lparr>col_Name = col\<rparr>) (ToColumns joinInfo)
      in \<lparr>rel_Table = Table_named (FromTable joinInfo),
          rel_Columns = columns,
          rel_Cardinality = fst cards,
          rel_ParentTable = Table_named (ToTable joinInfo),
          rel_ParentColumns = parentColumns,
          rel_ParentCardinality = snd cards,
          rel_Def = def,
          rel_Virtual = True\<rparr>)"

definition ExtractRelationsFromDefinitions ::
  "Table list \<Rightarrow> string \<Rightarrow> string \<Rightarrow> bool \<Rightarrow> Relation list" where
  "ExtractRelationsFromDefinitions tables defaultDB defaultSchema useBrackets =
     concat (map (\<lambda>table.
       if tbl_Type table \<noteq> ''VIEW'' \<and> tbl_Type table \<noteq> ''MATERIALIZED VIEW''
          \<and> tbl_Type table \<noteq> ''BASE TABLE'' then []
       else if tbl_Def table = [] then []
       else
         let tableName = tbl_Name table;
             discoveredJoins =
               ExtractJoinsFromSQL (tbl_Def table) tableName defaultDB defaultSchema useBrackets
         in map virtualRelation discoveredJoins)
       tables)"

section \<open>Dedup engine (sqlparser.go)\<close>

text \<open>The local struct \<open>relKey\<close>: table, columns, parentTable, parentCols.\<close>

type_synonym relKey = "string \<times> string \<times> string \<times> string"

definition relKey_of :: "Relation \<Rightarrow> relKey" where
  "relKey_of relation =
     (let colNames = map col_Name (rel_Columns relation);
          parentColNames = map col_Name (rel_ParentColumns relation)
      in (tbl_Name (rel_Table relation), Join colNames '','',
          tbl_Name (rel_ParentTable relation), Join parentColNames '',''))"

text \<open>
  One iteration of the loop over the input. The Go map \<open>seen\<close> is an association
  list with one entry per key; \<open>AList.update\<close> is the assignment \<open>seen[key] = relation\<close>.
\<close>

definition dedup_step :: "(relKey \<times> Relation) list \<Rightarrow> Relation \<Rightarrow> (relKey \<times> Relation) list" where
  "dedup_step seen relation =
     (let key = relKey_of relation
      in case map_of seen key of
           None \<Rightarrow> AList.update key relation seen
         | Some existing \<Rightarrow>
             if \<not> rel_Virtual relation \<and> rel_Virtual existing
             then AList.update key relation seen
             else seen)"

definition dedup_seen :: "Relation list \<Rightarrow> (relKey \<times> Relation) list" where
  "dedup_seen relations = foldl dedup_step [] relations"

text \<open>
  The result is filled by ranging over the map, and Go leaves the order of that
  unspecified: \<open>DeduplicateRelations relations result\<close> holds for every list \<open>result\<close>
  that the function can return, the values of the map in any order.
\<close>

definition DeduplicateRelations :: "Relation list \<Rightarrow> Relation list \<Rightarrow> bool" where
  "DeduplicateRelations relations result \<longleftrightarrow>
     mset result = mset (map snd (dedup_seen relations))"

section \<open>Merge orchestrator (merge.go)\<close>

text \<open>
  Modelled from the spec: \<open>Function\<close>, \<open>Driver\<close>, its metadata and \<open>Schema\<close> are declared
  with the other schema types, outside the sources; the fields the merge reads are
  kept.
\<close>

record Function =
  fn_Name :: string

record DriverMeta =
  meta_CurrentSchema :: string

record Driver =
  drv_Name :: string
  drv_Meta :: "DriverMeta option"

record Schema =
  sch_Name :: string
  sch_Desc :: string
  sch_Tables :: "Table list"
  sch_Relations :: "Relation list"
  sch_Functions :: "Function list"
  sch_Driver :: "Driver option"

record MergeConfig =
  Name :: string
  Description :: string
  DefaultSchema :: string
  UseBrackets :: bool
  ExtractViewRelations :: bool
  DatabaseMapping :: "string \<rightharpoonup> string"

text \<open>
  The counters are Go \<open>int\<close>s of 64 bits. They count elements of slices held in memory
  and cannot reach \<open>2 ^ 63\<close>, so they are integers here.
\<close>

record MergeStats =
  TotalTables :: int
  TotalViews :: int
  TotalRelations :: int
  TotalFunctions :: int
  Databases :: "string list"
  CrossDBRelations :: int
  ExtractedRelations :: int
  DeduplicatedCount :: int

text \<open>\<^verbatim>\<open>strings.LastIndex(s, sep)\<close> for a separator of one byte; \<open>None\<close> is Go's \<open>-1\<close>.\<close>

definition LastIndex :: "string \<Rightarrow> char \<Rightarrow> nat option" where
  "LastIndex s c =
     (if c \<in> set s then Some (length s - Suc (length (takeWhile (\<lambda>x. x \<noteq> c) (rev s))))
      else None)"

definition TrimSuffix :: "string \<Rightarrow> string \<Rightarrow> string" where
  "TrimSuffix s suf = (if HasSuffix s suf then take (length s - length suf) s else s)"

text \<open>\<^verbatim>\<open>strings.Trim(s, cutset)\<close> for a cutset of one ASCII character.\<close>

definition Trim :: "string \<Rightarrow> char \<Rightarrow> string" where
  "Trim s c = rev (dropWhile (\<lambda>x. x = c) (rev (dropWhile (\<lambda>x. x = c) s)))"

text \<open>The verb \<^verbatim>\<open>%d\<close> of \<^verbatim>\<open>fmt.Sprintf\<close> for a number that is not negative.\<close>

function decimal :: "nat \<Rightarrow> string" where
  "decimal n =
     (if n < 10 then [''0123456789'' ! n]
      else decimal (n div 10) @ [''0123456789'' ! (n mod 10)])"
  by pat_completeness auto
termination
  by (relation "measure id") auto

declare decimal.simps [simp del]

text \<open>
  \<^verbatim>\<open>strings.ToUpper\<close> with its result in full, as \<open>ExtractDatabaseName\<close> returns it. The
  library has two paths. A string of ASCII bytes only is mapped byte by byte. Any
  other string goes through \<^verbatim>\<open>strings.Map(unicode.ToUpper, s)\<close>, that is through the
  case tables of the Unicode package, which are not among the sources: that mapping
  is the parameter \<open>unicodeUpper\<close>.
\<close>

definition isASCII :: "string \<Rightarrow> bool" where
  "isASCII s = list_all (\<lambda>c. of_char c < (128::nat)) s"

definition strings_ToUpper :: "(string \<Rightarrow> string) \<Rightarrow> string \<Rightarrow> string" where
  "strings_ToUpper unicodeUpper s = (if isASCII s then map ascii_upper s else unicodeUpper s)"

definition ExtractDatabaseName :: "(string \<Rightarrow> string) \<Rightarrow> string \<Rightarrow> string" where
  "ExtractDatabaseName unicodeUpper filepath =
     (let filename0 = filepath;
          filename1 = (case LastIndex filename0 (CHR ''/'') of
                         Some idx \<Rightarrow> drop (idx + 1) filename0 | None \<Rightarrow> filename0);
          filename2 = (case LastIndex filename1 (CHR 0x5C) of
                         Some idx \<Rightarrow> drop (idx + 1) filename1 | None \<Rightarrow> filename1);
          filename3 = (case LastIndex filename2 (CHR ''.'') of
                         Some idx \<Rightarrow> take idx filename2 | None \<Rightarrow> filename2);
          filename4 = TrimSuffix filename3 ''_schema'';
          filename5 = TrimSuffix filename4 ''-schema''
      in strings_ToUpper unicodeUpper filename5)"

definition updateTableNames :: "Table list \<Rightarrow> string \<Rightarrow> string \<Rightarrow> bool \<Rightarrow> Table list" where
  "updateTableNames tables dbPrefix schemaName useBrackets =
     map (\<lambda>table.
       let t0 = table\<lparr>tbl_Name :=
                  StandardizeTableName (tbl_Name table) dbPrefix schemaName useBrackets\<rparr>;
           t1 = (if length (tbl_ReferencedTables t0) > 0
                 then t0\<lparr>tbl_ReferencedTables :=
                        map (\<lambda>ref. StandardizeTableName ref dbPrefix schemaName useBrackets)
                          (tbl_ReferencedTables t0)\<rparr>
                 else t0);
           t2 = (if length (tbl_Constraints t1) > 0
                 then t1\<lparr>tbl_Constraints :=
                        map (\<lambda>constraint.
                          let c0 = (case con_Table constraint of
                                      Some n \<Rightarrow> constraint\<lparr>con_Table :=
                                        Some (StandardizeTableName n dbPrefix schemaName
                                                useBrackets)\<rparr>
                                    | None \<Rightarrow> constraint)
                          in (case con_ReferencedTable c0 of
                                Some rn \<Rightarrow>
                                  if rn \<noteq> [] then
                                    let refParsed = ParseQualifiedName rn;
                                        refDB = (if Database refParsed = [] then dbPrefix
                                                 else Database refParsed)
                                    in c0\<lparr>con_ReferencedTable :=
                                         Some (StandardizeTableName rn refDB schemaName
                                                 useBrackets)\<rparr>
                                  else c0
                              | None \<Rightarrow> c0))
                          (tbl_Constraints t1)\<rparr>
                 else t1);
           t3 = (if length (tbl_Indexes t2) > 0
                 then t2\<lparr>tbl_Indexes :=
                        map (\<lambda>index.
                          case idx_Table index of
                            Some n \<Rightarrow> index\<lparr>idx_Table :=
                              Some (StandardizeTableName n dbPrefix schemaName useBrackets)\<rparr>
                          | None \<Rightarrow> index)
                          (tbl_Indexes t2)\<rparr>
                 else t2)
       in t3) tables"

definition updateRelations :: "Relation list \<Rightarrow> string \<Rightarrow> string \<Rightarrow> bool \<Rightarrow> Relation list" where
  "updateRelations relations dbPrefix schemaName useBrackets =
     map (\<lambda>relation.
       let tableParsed = ParseQualifiedName (tbl_Name (rel_Table relation));
           parentParsed = ParseQualifiedName (tbl_Name (rel_ParentTable relation));
           tableDB = (if Database tableParsed = [] then dbPrefix else Database tableParsed);
           parentDB = (if Database parentParsed = [] then dbPrefix else Database parentParsed)
       in relation\<lparr>
            rel_Table := Table_named
              (StandardizeTableName (tbl_Name (rel_Table relation)) tableDB schemaName
                 useBrackets),
            rel_ParentTable := Table_named
              (StandardizeTableName (tbl_Name (rel_ParentTable relation)) parentDB schemaName
                 useBrackets)\<rparr>) relations"

definition updateFunctions :: "Function list \<Rightarrow> string \<Rightarrow> string \<Rightarrow> bool \<Rightarrow> Function list" where
  "updateFunctions functions dbPrefix schemaName useBrackets =
     map (\<lambda>f. f\<lparr>fn_Name := StandardizeTableName (fn_Name f) dbPrefix schemaName useBrackets\<rparr>)
       functions"

text \<open>The configuration in force: the one given, or the default built for a nil pointer.\<close>

definition config_of :: "string list \<Rightarrow> MergeConfig option \<Rightarrow> MergeConfig" where
  "config_of jsonFiles config =
     (case config of
        Some c \<Rightarrow> c
      | None \<Rightarrow>
          \<lparr>Name = ''Combined Schema'',
           Description = ''Combined schema from '' @ decimal (length jsonFiles) @ '' databases'',
           DefaultSchema = ''dbo'',
           UseBrackets = True,
           ExtractViewRelations = True,
           DatabaseMapping = Map.empty\<rparr>)"

text \<open>The variables \<open>dbPrefix\<close> and \<open>schemaName\<close> of the loop over the files.\<close>

definition dbPrefix_of :: "(string \<Rightarrow> string) \<Rightarrow> MergeConfig \<Rightarrow> string \<Rightarrow> string" where
  "dbPrefix_of unicodeUpper config jsonFile =
     (case DatabaseMapping config jsonFile of
        Some mappedName \<Rightarrow> mappedName
      | None \<Rightarrow> ExtractDatabaseName unicodeUpper jsonFile)"

definition schemaName_of :: "MergeConfig \<Rightarrow> Schema \<Rightarrow> string" where
  "schemaName_of config schema =
     (case sch_Driver schema of
        None \<Rightarrow> DefaultSchema config
      | Some driver \<Rightarrow>
          (case drv_Meta driver of
             None \<Rightarrow> DefaultSchema config
           | Some meta \<Rightarrow>
               if meta_CurrentSchema meta \<noteq> []
               then Trim (meta_CurrentSchema meta) (CHR 0x22)
               else DefaultSchema config))"

text \<open>The test of the loop that counts cross-database relations.\<close>

definition crossDatabase :: "Relation \<Rightarrow> bool" where
  "crossDatabase rel =
     (let relDB = Database (ParseQualifiedName (tbl_Name (rel_Table rel)));
          parentDB = Database (ParseQualifiedName (tbl_Name (rel_ParentTable rel)))
      in relDB \<noteq> [] \<and> parentDB \<noteq> [] \<and> relDB \<noteq> parentDB)"

text \<open>The body of the loop over the files, for a file that has been loaded.\<close>

definition merge_file ::
  "(string \<Rightarrow> string) \<Rightarrow> MergeConfig \<Rightarrow> string \<Rightarrow> Schema \<Rightarrow> Schema \<times> MergeStats
     \<Rightarrow> Schema \<times> MergeStats" where
  "merge_file unicodeUpper config jsonFile schema ms =
     (let merged0 = fst ms; stats0 = snd ms;
          dbPrefix = dbPrefix_of unicodeUpper config jsonFile;
          stats1 = stats0\<lparr>Databases := Databases stats0 @ [dbPrefix]\<rparr>;
          schemaName = schemaName_of config schema;
          updatedTables = updateTableNames (sch_Tables schema) dbPrefix schemaName
                            (UseBrackets config);
          merged1 = merged0\<lparr>sch_Tables := sch_Tables merged0 @ updatedTables\<rparr>;
          stats2 = stats1\<lparr>TotalTables := TotalTables stats1 + int (length updatedTables)\<rparr>;
          stats3 = stats2\<lparr>TotalViews :=
                     foldl (\<lambda>n t. if tbl_Type t = ''VIEW'' \<or> tbl_Type t = ''MATERIALIZED VIEW''
                                    then n + 1 else n)
                       (TotalViews stats2) updatedTables\<rparr>;
          updatedRelations = updateRelations (sch_Relations schema) dbPrefix schemaName
                               (UseBrackets config);
          stats4 = stats3\<lparr>CrossDBRelations :=
                     foldl (\<lambda>n rel. if crossDatabase rel then n + 1 else n)
                       (CrossDBRelations stats3) updatedRelations\<rparr>;
          merged2 = merged1\<lparr>sch_Relations := sch_Relations merged1 @ updatedRelations\<rparr>;
          stats5 = stats4\<lparr>TotalRelations :=
                     TotalRelations stats4 + int (length updatedRelations)\<rparr>;
          virtualRels = (if ExtractViewRelations config
                         then ExtractRelationsFromDefinitions updatedTables dbPrefix schemaName
                                (UseBrackets config)
                         else []);
          merged3 = merged2\<lparr>sch_Relations := sch_Relations merged2 @ virtualRels\<rparr>;
          stats6 = (if ExtractViewRelations config
                    then stats5\<lparr>ExtractedRelations :=
                           ExtractedRelations stats5 + int (length virtualRels)\<rparr>
                    else stats5);
          updatedFunctions = updateFunctions (sch_Functions schema) dbPrefix schemaName
                               (UseBrackets config);
          merged4 = merged3\<lparr>sch_Functions := sch_Functions merged3 @ updatedFunctions\<rparr>;
          stats7 = stats6\<lparr>TotalFunctions :=
                     TotalFunctions stats6 + int (length updatedFunctions)\<rparr>;
          merged5 = (if sch_Driver merged4 = None \<and> sch_Driver schema \<noteq> None
                     then merged4\<lparr>sch_Driver := sch_Driver schema\<rparr>
                     else merged4)
      in (merged5, stats7))"

text \<open>
  The errors of \<open>MergeSchemas\<close>: the error of a collaborator, wrapped with what failed.
\<close>

datatype 'e merge_error = FailedToLoad string 'e | FailedToRepair 'e

text \<open>
  The loop over the files. \<open>load\<close> is \<open>LoadSchemaFromJSON\<close>, which reads the file
  system and decodes JSON: what it returns for a file name is an input of the model.
  The first file that fails to load ends the merge.
\<close>

fun merge_files ::
  "(string \<Rightarrow> string) \<Rightarrow> (string \<Rightarrow> 'e + Schema) \<Rightarrow> MergeConfig \<Rightarrow> Schema \<times> MergeStats
     \<Rightarrow> string list \<Rightarrow> 'e merge_error + Schema \<times> MergeStats" where
  "merge_files unicodeUpper load config ms [] = Inr ms"
| "merge_files unicodeUpper load config ms (jsonFile # rest) =
     (case load jsonFile of
        Inl err \<Rightarrow> Inl (FailedToLoad jsonFile err)
      | Inr schema \<Rightarrow>
          merge_files unicodeUpper load config
            (merge_file unicodeUpper config jsonFile schema ms) rest)"

text \<open>
  \<open>MergeSchemas unicodeUpper load repair jsonFiles config outcome\<close> holds for every
  outcome the function can have: it is a relation because the deduplicated relations
  come in an order Go does not fix. \<open>repair\<close> is the method \<open>Repair\<close> of the merged
  schema, which is not among the sources; its result for a schema is an input of the
  model, and so is \<open>unicodeUpper\<close> (see \<open>strings_ToUpper\<close>).
\<close>

definition MergeSchemas ::
  "(string \<Rightarrow> string) \<Rightarrow> (string \<Rightarrow> 'e + Schema) \<Rightarrow> (Schema \<Rightarrow> 'e + Schema) \<Rightarrow> string list
     \<Rightarrow> MergeConfig option \<Rightarrow> 'e merge_error + Schema \<times> MergeStats \<Rightarrow> bool" where
  "MergeSchemas unicodeUpper load repair jsonFiles config outcome \<longleftrightarrow>
     (let cfg = config_of jsonFiles config;
          merged0 = \<lparr>sch_Name = Name cfg, sch_Desc = Description cfg, sch_Tables = [],
                     sch_Relations = [], sch_Functions = [], sch_Driver = None\<rparr>;
          stats0 = \<lparr>TotalTables = 0, TotalViews = 0, TotalRelations = 0, TotalFunctions = 0,
                    Databases = [], CrossDBRelations = 0, ExtractedRelations = 0,
                    DeduplicatedCount = 0\<rparr>
      in case merge_files unicodeUpper load cfg (merged0, stats0) jsonFiles of
           Inl err \<Rightarrow> outcome = Inl err
         | Inr (merged, stats) \<Rightarrow>
             (\<exists>deduplicated.
                DeduplicateRelations (sch_Relations merged) deduplicated \<and>
                outcome =
                  (let originalRelationCount = int (length (sch_Relations merged));
                       merged' = merged\<lparr>sch_Relations := deduplicated\<rparr>;
                       stats' = stats\<lparr>DeduplicatedCount :=
                                  originalRelationCount - int (length deduplicated)\<rparr>
                   in case repair merged' of
                        Inl err \<Rightarrow> Inl (FailedToRepair err)
                      | Inr repaired \<Rightarrow> Inr (repaired, stats'))))"

section \<open>Predicates used in the statements\<close>

text \<open>A name part without the separator and without bracket characters.\<close>

definition plain :: "string \<Rightarrow> bool" where
  "plain s \<longleftrightarrow> CHR ''.'' \<notin> set s \<and> CHR ''['' \<notin> set s \<and> CHR '']'' \<notin> set s"

text \<open>No white-space rune at the front or at the back.\<close>

definition no_outer_space :: "string \<Rightarrow> bool" where
  "no_outer_space s \<longleftrightarrow> list_all (\<lambda>w. \<not> prefix w s \<and> \<not> suffix w s) space_runes"

text \<open>Not empty, and nothing but white space.\<close>

definition blank :: "string \<Rightarrow> bool" where
  "blank s \<longleftrightarrow> s \<noteq> [] \<and> TrimSpace s = []"

text \<open>A name part as \<open>BuildQualifiedName\<close> writes it, without the brackets.\<close>

definition norm_part :: "bool \<Rightarrow> string \<Rightarrow> string" where
  "norm_part useBrackets x = (if useBrackets then TrimSpace x else x)"

text \<open>
  The survivor among the candidates of one key, in the words of the specification:
  the first seen, unless it is virtual and a later candidate is not, and then the
  first candidate that is not virtual.
\<close>

definition survivor :: "Relation list \<Rightarrow> Relation" where
  "survivor cands =
     (if rel_Virtual (hd cands)
      then (case find (\<lambda>r. \<not> rel_Virtual r) cands of Some r \<Rightarrow> r | None \<Rightarrow> hd cands)
      else hd cands)"

definition candidates :: "relKey \<Rightarrow> Relation list \<Rightarrow> Relation list" where
  "candidates k relations = filter (\<lambda>r. relKey_of r = k) relations"

text \<open>The three relations of \<open>TestDeduplicateRelations\<close>.\<close>

definition test_relation :: "string \<Rightarrow> string \<Rightarrow> string \<Rightarrow> string \<Rightarrow> bool \<Rightarrow> Relation" where
  "test_relation t c p pc v =
     \<lparr>rel_Table = Table_named t, rel_Columns = [\<lparr>col_Name = c\<rparr>],
      rel_Cardinality = UnknownCardinality, rel_ParentTable = Table_named p,
      rel_ParentColumns = [\<lparr>col_Name = pc\<rparr>], rel_ParentCardinality = UnknownCardinality,
      rel_Def = [], rel_Virtual = v\<rparr>"

definition test_fk :: Relation where
  "test_fk = test_relation ''[DV].[dbo].[Orders]'' ''customer_id'' ''[DV].[dbo].[Customers]'' ''id'' False"

definition test_dup :: Relation where
  "test_dup = test_relation ''[DV].[dbo].[Orders]'' ''customer_id'' ''[DV].[dbo].[Customers]'' ''id'' True"

definition test_other :: Relation where
  "test_other = test_relation ''[DV].[dbo].[Orders]'' ''product_id'' ''[DV].[dbo].[Products]'' ''id'' True"

text \<open>The invariant of the loop, after the relations \<open>rs\<close> have been read.\<close>

definition dedup_inv :: "Relation list \<Rightarrow> (relKey \<times> Relation) list \<Rightarrow> bool" where
  "dedup_inv rs seen \<longleftrightarrow>
     distinct (map fst seen) \<and>
     (\<forall>k. map_of seen k =
        (if candidates k rs = [] then None else Some (survivor (candidates k rs))))"





text \<open>The SQL text of the specification's example, and the same with a left join.\<close>

definition example_sql :: string where
  "example_sql = ''... FROM Orders o INNER JOIN Customers c ON o.customer_id = c.id''"

definition example_sql_left :: string where
  "example_sql_left = ''... FROM Orders o LEFT JOIN Customers c ON o.customer_id = c.id''"

definition example_fact :: "string \<Rightarrow> JoinRelation" where
  "example_fact joinType =
     \<lparr>FromTable = ''Orders'', FromColumns = [''customer_id''],
      ToTable = ''[DV].[dbo].[Customers]'', ToColumns = [''id''],
      JoinType = joinType, OnCondition = ''o.customer_id = c.id''\<rparr>"

definition example_view :: Table where
  "example_view =
     \<lparr>tbl_Name = ''Orders'', tbl_Type = ''VIEW'', tbl_Def = example_sql_left,
      tbl_ReferencedTables = [], tbl_Constraints = [], tbl_Indexes = []\<rparr>"

text \<open>The text without a join of \<open>TestExtractJoinsFromSQL\<close>, and a join without an alias.\<close>

definition no_join_sql :: string where
  "no_join_sql = ''SELECT * FROM Orders WHERE status = '' @ [CHR 0x27] @ ''active'' @ [CHR 0x27]"

definition no_alias_sql :: string where
  "no_alias_sql = ''SELECT * FROM a JOIN b ON a.x = b.y''"

text \<open>
  Two documents of one table each; the relation of the first points to the table of
  the second, in another database. The loader knows these two files only.
\<close>

definition example_dv :: Schema where
  "example_dv =
     \<lparr>sch_Name = ''dv'', sch_Desc = [],
      sch_Tables = [(Table_named ''Orders'')\<lparr>tbl_Type := ''BASE TABLE''\<rparr>],
      sch_Relations = [test_relation ''Orders'' ''customer_id'' ''SA.dbo.Customers'' ''id'' False],
      sch_Functions = [], sch_Driver = None\<rparr>"

definition example_sa :: Schema where
  "example_sa =
     \<lparr>sch_Name = ''sa'', sch_Desc = [],
      sch_Tables = [(Table_named ''Customers'')\<lparr>tbl_Type := ''BASE TABLE''\<rparr>],
      sch_Relations = [], sch_Functions = [], sch_Driver = None\<rparr>"

definition example_load :: "string \<Rightarrow> string + Schema" where
  "example_load jsonFile =
     (if jsonFile = ''dv_schema.json'' then Inr example_dv
      else if jsonFile = ''sa_schema.json'' then Inr example_sa
      else Inl ''failed to read file'')"

definition example_merged :: Schema where
  "example_merged =
     \<lparr>sch_Name = ''Combined Schema'', sch_Desc = ''Combined schema from 2 databases'',
      sch_Tables = [(Table_named ''[DV].[dbo].[Orders]'')\<lparr>tbl_Type := ''BASE TABLE''\<rparr>,
                    (Table_named ''[SA].[dbo].[Customers]'')\<lparr>tbl_Type := ''BASE TABLE''\<rparr>],
      sch_Relations = [test_relation ''[DV].[dbo].[Orders]'' ''customer_id''
                         ''[SA].[dbo].[Customers]'' ''id'' False],
      sch_Functions = [], sch_Driver = None\<rparr>"

definition example_stats :: MergeStats where
  "example_stats =
     \<lparr>TotalTables = 2, TotalViews = 0, TotalRelations = 1, TotalFunctions = 0,
      Databases = [''DV'', ''SA''], CrossDBRelations = 1, ExtractedRelations = 0,
      DeduplicatedCount = 0\<rparr>"

text \<open>
  One document with one view and no relation of its own; the view joins a table of
  another database. The merged schema and the statistics of merging it alone.
\<close>

definition cross_sql :: string where
  "cross_sql = ''... FROM Orders o JOIN SA.dbo.Customers c ON o.customer_id = c.id''"

definition cross_doc :: Schema where
  "cross_doc =
     \<lparr>sch_Name = ''dv'', sch_Desc = [],
      sch_Tables = [(Table_named ''OrderView'')\<lparr>tbl_Type := ''VIEW'', tbl_Def := cross_sql\<rparr>],
      sch_Relations = [], sch_Functions = [], sch_Driver = None\<rparr>"

definition cross_load :: "string \<Rightarrow> string + Schema" where
  "cross_load jsonFile =
     (if jsonFile = ''dv_schema.json'' then Inr cross_doc else Inl ''failed to read file'')"

definition cross_relation :: Relation where
  "cross_relation =
     virtualRelation
       \<lparr>FromTable = ''[DV].[dbo].[OrderView]'', FromColumns = [''customer_id''],
        ToTable = ''[SA].[dbo].[Customers]'', ToColumns = [''id''],
        JoinType = ''INNER'', OnCondition = ''o.customer_id = c.id''\<rparr>"

definition cross_merged :: Schema where
  "cross_merged =
     \<lparr>sch_Name = ''Combined Schema'', sch_Desc = ''Combined schema from 1 databases'',
      sch_Tables = [(Table_named ''[DV].[dbo].[OrderView]'')
                      \<lparr>tbl_Type := ''VIEW'', tbl_Def := cross_sql\<rparr>],
      sch_Relations = [cross_relation],
      sch_Functions = [], sch_Driver = None\<rparr>"

definition cross_stats :: MergeStats where
  "cross_stats =
     \<lparr>TotalTables = 1, TotalViews = 1, TotalRelations = 0, TotalFunctions = 0,
      Databases = [''DV''], CrossDBRelations = 0, ExtractedRelations = 1,
      DeduplicatedCount = 0\<rparr>"

section \<open>Facts about the string functions\<close>

lemma Split_ne: "Split s c \<noteq> []"
  by (induction s) (auto split: list.splits)

lemma Split_no_sep: "c \<notin> set p \<Longrightarrow> Split p c = [p]"
  by (induction p) auto

lemma Split_append_sep: "c \<notin> set p \<Longrightarrow> Split (p @ c # r) c = p # Split r c"
  by (induction p) auto

lemma Split_parts_no_sep: "p \<in> set (Split s c) \<Longrightarrow> c \<notin> set p"
proof (induction s arbitrary: p)
  case Nil
  then show ?case by simp
next
  case (Cons a s)
  show ?case
  proof (cases "a = c")
    case True
    with Cons show ?thesis by auto
  next
    case False
    from Split_ne [of s c] obtain q qs where q: "Split s c = q # qs"
      by (cases "Split s c") auto
    with Cons False show ?thesis by auto
  qed
qed

lemma Join_Split: "Join (Split s c) [c] = s"
proof (induction s)
  case Nil
  then show ?case by simp
next
  case (Cons a s)
  from Split_ne [of s c] obtain q qs where q: "Split s c = q # qs"
    by (cases "Split s c") auto
  with Cons show ?case by (cases qs) auto
qed

lemma NormalizeBrackets_filter:
  "NormalizeBrackets s = filter (\<lambda>c. c \<noteq> CHR ''['' \<and> c \<noteq> CHR '']'') s"
  by (induction s) (auto simp: NormalizeBrackets_def ReplaceAll_def)

lemma NormalizeBrackets_idem: "NormalizeBrackets (NormalizeBrackets s) = NormalizeBrackets s"
  by (simp add: NormalizeBrackets_filter)


lemma space_runes_ne: "[] \<notin> set space_runes"
  by (simp add: space_runes_def)

lemma trim_left_id: "list_all (\<lambda>w. \<not> prefix w s) space_runes \<Longrightarrow> trim_left s = s"
proof -
  assume "list_all (\<lambda>w. \<not> prefix w s) space_runes"
  then have "filter (\<lambda>w. prefix w s) space_runes = []"
    by (simp add: list_all_iff filter_empty_conv)
  then show ?thesis by (simp add: trim_left.simps [of s])
qed

lemma trim_right_id: "list_all (\<lambda>w. \<not> suffix w s) space_runes \<Longrightarrow> trim_right s = s"
proof -
  assume "list_all (\<lambda>w. \<not> suffix w s) space_runes"
  then have "filter (\<lambda>w. suffix w s) space_runes = []"
    by (simp add: list_all_iff filter_empty_conv)
  then show ?thesis by (simp add: trim_right.simps [of s])
qed

lemma trim_left_suffix: "suffix (trim_left s) s"
proof (induction s rule: trim_left.induct)
  case (1 s)
  show ?case
  proof (cases "filter (\<lambda>w. prefix w s) space_runes")
    case Nil
    then show ?thesis by (simp add: trim_left.simps [of s])
  next
    case (Cons w ws)
    show ?thesis
    proof (cases "w = []")
      case True
      with Cons show ?thesis by (simp add: trim_left.simps [of s])
    next
      case False
      from 1 [OF Cons False] have "suffix (trim_left (drop (length w) s)) (drop (length w) s)" .
      then have "suffix (trim_left (drop (length w) s)) s"
        using suffix_drop suffix_order.trans by blast
      with Cons False show ?thesis by (simp add: trim_left.simps [of s])
    qed
  qed
qed

lemma trim_right_prefix: "prefix (trim_right s) s"
proof (induction s rule: trim_right.induct)
  case (1 s)
  show ?case
  proof (cases "filter (\<lambda>w. suffix w s) space_runes")
    case Nil
    then show ?thesis by (simp add: trim_right.simps [of s])
  next
    case (Cons w ws)
    show ?thesis
    proof (cases "w = []")
      case True
      with Cons show ?thesis by (simp add: trim_right.simps [of s])
    next
      case False
      from 1 [OF Cons False]
      have "prefix (trim_right (take (length s - length w) s)) (take (length s - length w) s)" .
      then have "prefix (trim_right (take (length s - length w) s)) s"
        using take_is_prefix prefix_order.trans by blast
      with Cons False show ?thesis by (simp add: trim_right.simps [of s])
    qed
  qed
qed

lemma trim_left_stable: "list_all (\<lambda>w. \<not> prefix w (trim_left s)) space_runes"
proof (induction s rule: trim_left.induct)
  case (1 s)
  show ?case
  proof (cases "filter (\<lambda>w. prefix w s) space_runes")
    case Nil
    then have "list_all (\<lambda>w. \<not> prefix w s) space_runes"
      by (simp add: list_all_iff filter_empty_conv)
    with Nil show ?thesis by (simp add: trim_left.simps [of s])
  next
    case (Cons w ws)
    have "w \<in> set (filter (\<lambda>w. prefix w s) space_runes)" by (simp add: Cons)
    then have "w \<in> set space_runes" by simp
    with space_runes_ne have ne: "w \<noteq> []" by auto
    from 1 [OF Cons ne] Cons ne show ?thesis by (simp add: trim_left.simps [of s])
  qed
qed

lemma trim_right_stable: "list_all (\<lambda>w. \<not> suffix w (trim_right s)) space_runes"
proof (induction s rule: trim_right.induct)
  case (1 s)
  show ?case
  proof (cases "filter (\<lambda>w. suffix w s) space_runes")
    case Nil
    then have "list_all (\<lambda>w. \<not> suffix w s) space_runes"
      by (simp add: list_all_iff filter_empty_conv)
    with Nil show ?thesis by (simp add: trim_right.simps [of s])
  next
    case (Cons w ws)
    have "w \<in> set (filter (\<lambda>w. suffix w s) space_runes)" by (simp add: Cons)
    then have "w \<in> set space_runes" by simp
    with space_runes_ne have ne: "w \<noteq> []" by auto
    from 1 [OF Cons ne] Cons ne show ?thesis by (simp add: trim_right.simps [of s])
  qed
qed

lemma TrimSpace_id: "no_outer_space s \<Longrightarrow> TrimSpace s = s"
proof -
  assume "no_outer_space s"
  then have l: "list_all (\<lambda>w. \<not> prefix w s) space_runes"
    and r: "list_all (\<lambda>w. \<not> suffix w s) space_runes"
    by (simp_all add: no_outer_space_def list_all_iff)
  show ?thesis by (simp add: TrimSpace_def trim_left_id [OF l] trim_right_id [OF r])
qed

lemma TrimSpace_no_outer_space: "TrimSpace s \<noteq> [] \<Longrightarrow> no_outer_space (TrimSpace s)"
proof -
  assume ne: "TrimSpace s \<noteq> []"
  let ?y = "trim_left s"
  let ?z = "trim_right ?y"
  have zy: "prefix ?z ?y" by (rule trim_right_prefix)
  have "\<not> prefix w ?z" if w: "w \<in> set space_runes" for w
  proof
    assume "prefix w ?z"
    then have "prefix w ?y" using zy by (rule prefix_order.trans)
    moreover from trim_left_stable [of s] w have "\<not> prefix w ?y"
      by (simp add: list_all_iff)
    ultimately show False by simp
  qed
  moreover have "\<not> suffix w ?z" if w: "w \<in> set space_runes" for w
    using trim_right_stable [of ?y] w by (simp add: list_all_iff)
  ultimately show ?thesis
    by (simp add: no_outer_space_def TrimSpace_def list_all_iff)
qed

lemma TrimSpace_Nil: "TrimSpace [] = []"
  using trim_left_suffix [of "[]"] trim_right_prefix [of "[]"]
  by (simp add: TrimSpace_def)

lemma TrimSpace_idem: "TrimSpace (TrimSpace s) = TrimSpace s"
proof (cases "TrimSpace s = []")
  case True
  then show ?thesis by (simp add: TrimSpace_Nil)
next
  case False
  then show ?thesis by (rule TrimSpace_id [OF TrimSpace_no_outer_space])
qed

lemma set_TrimSpace: "set (TrimSpace s) \<subseteq> set s"
proof -
  have "set (trim_right (trim_left s)) \<subseteq> set (trim_left s)"
    using trim_right_prefix [of "trim_left s"] by (rule set_mono_prefix)
  moreover have "set (trim_left s) \<subseteq> set s"
    using trim_left_suffix [of s] by (rule set_mono_suffix)
  ultimately show ?thesis by (simp add: TrimSpace_def)
qed

lemma plain_TrimSpace: "plain s \<Longrightarrow> plain (TrimSpace s)"
  using set_TrimSpace [of s] by (auto simp: plain_def)

section \<open>Identifier model: parsing\<close>

text \<open>
  C2. For every input string, \<open>ParseQualifiedName\<close> first removes every \<open>[\<close> and
  \<open>]\<close>, then splits at \<open>.\<close>. One part sets only \<open>Table\<close>; two parts set
  \<open>Schema\<close> and \<open>Table\<close>; three parts set \<open>Database\<close>, \<open>Schema\<close> and \<open>Table\<close>;
  with more than three parts the last three are taken and the earlier ones are
  dropped. There is always at least one part, and a bracketed input parses as the
  input without its brackets does.
\<close>

theorem ParseQualifiedName_parts:
  assumes "Split (filter (\<lambda>c. c \<noteq> CHR ''['' \<and> c \<noteq> CHR '']'') fullName) (CHR ''.'') = parts"
  shows "(\<forall>t. parts = [t] \<longrightarrow>
            ParseQualifiedName fullName = \<lparr>Database = [], Schema = [], Table = t\<rparr>)
       \<and> (\<forall>s t. parts = [s, t] \<longrightarrow>
            ParseQualifiedName fullName = \<lparr>Database = [], Schema = s, Table = t\<rparr>)
       \<and> (\<forall>d s t. parts = [d, s, t] \<longrightarrow>
            ParseQualifiedName fullName = \<lparr>Database = d, Schema = s, Table = t\<rparr>)
       \<and> (\<forall>pre d s t. parts = pre @ [d, s, t] \<and> pre \<noteq> [] \<longrightarrow>
            ParseQualifiedName fullName = \<lparr>Database = d, Schema = s, Table = t\<rparr>)
       \<and> parts \<noteq> []
       \<and> ParseQualifiedName (filter (\<lambda>c. c \<noteq> CHR ''['' \<and> c \<noteq> CHR '']'') fullName)
            = ParseQualifiedName fullName"
proof -
  let ?n = "filter (\<lambda>c. c \<noteq> CHR ''['' \<and> c \<noteq> CHR '']'') fullName"
  have p: "Split (NormalizeBrackets fullName) (CHR ''.'') = parts"
    using assms by (simp add: NormalizeBrackets_filter)
  have idem: "ParseQualifiedName ?n = ParseQualifiedName fullName"
    by (simp add: ParseQualifiedName_def NormalizeBrackets_filter)
  have c1: "\<forall>t. parts = [t] \<longrightarrow>
      ParseQualifiedName fullName = \<lparr>Database = [], Schema = [], Table = t\<rparr>"
    by (simp add: ParseQualifiedName_def p)
  have c2: "\<forall>s t. parts = [s, t] \<longrightarrow>
      ParseQualifiedName fullName = \<lparr>Database = [], Schema = s, Table = t\<rparr>"
    by (simp add: ParseQualifiedName_def p)
  have c3: "\<forall>d s t. parts = [d, s, t] \<longrightarrow>
      ParseQualifiedName fullName = \<lparr>Database = d, Schema = s, Table = t\<rparr>"
    by (simp add: ParseQualifiedName_def p)
  have c4: "\<forall>pre d s t. parts = pre @ [d, s, t] \<and> pre \<noteq> [] \<longrightarrow>
      ParseQualifiedName fullName = \<lparr>Database = d, Schema = s, Table = t\<rparr>"
  proof (intro allI impI, elim conjE)
    fix pre :: "string list" and d s t
    assume eq: "parts = pre @ [d, s, t]" and ne: "pre \<noteq> []"
    then have len: "length parts = length pre + 3" "length pre > 0" by simp_all
    have "parts ! (length parts - 3) = d" "parts ! (length parts - 2) = s"
      "parts ! (length parts - 1) = t"
      using len by (simp_all add: eq nth_append)
    with len show "ParseQualifiedName fullName = \<lparr>Database = d, Schema = s, Table = t\<rparr>"
      by (simp add: ParseQualifiedName_def p Let_def)
  qed
  have c5: "parts \<noteq> []"
    by (metis Split_ne assms)
  from c1 c2 c3 c4 c5 idem show ?thesis by blast
qed

theorem ParseQualifiedName_parts_witness:
  "ParseQualifiedName ''Users'' = \<lparr>Database = [], Schema = [], Table = ''Users''\<rparr>
   \<and> ParseQualifiedName ''dbo.Users'' = \<lparr>Database = [], Schema = ''dbo'', Table = ''Users''\<rparr>
   \<and> ParseQualifiedName ''DV.dbo.Hub_Customer'' =
        \<lparr>Database = ''DV'', Schema = ''dbo'', Table = ''Hub_Customer''\<rparr>
   \<and> ParseQualifiedName ''[DV].[dbo].[Hub_Customer]'' =
        \<lparr>Database = ''DV'', Schema = ''dbo'', Table = ''Hub_Customer''\<rparr>
   \<and> ParseQualifiedName ''srv.DV.dbo.Hub_Customer'' =
        \<lparr>Database = ''DV'', Schema = ''dbo'', Table = ''Hub_Customer''\<rparr>"
proof -
  have 1: "Split (filter (\<lambda>c. c \<noteq> CHR ''['' \<and> c \<noteq> CHR '']'') ''Users'') (CHR ''.'') = [''Users'']"
    by simp
  have 2: "Split (filter (\<lambda>c. c \<noteq> CHR ''['' \<and> c \<noteq> CHR '']'') ''dbo.Users'') (CHR ''.'')
            = [''dbo'', ''Users'']"
    by simp
  have 3: "Split (filter (\<lambda>c. c \<noteq> CHR ''['' \<and> c \<noteq> CHR '']'') ''DV.dbo.Hub_Customer'') (CHR ''.'')
            = [''DV'', ''dbo'', ''Hub_Customer'']"
    by simp
  have 4: "Split (filter (\<lambda>c. c \<noteq> CHR ''['' \<and> c \<noteq> CHR '']'') ''[DV].[dbo].[Hub_Customer]'')
             (CHR ''.'') = [''DV'', ''dbo'', ''Hub_Customer'']"
    by simp
  have 5: "Split (filter (\<lambda>c. c \<noteq> CHR ''['' \<and> c \<noteq> CHR '']'') ''srv.DV.dbo.Hub_Customer'')
             (CHR ''.'') = [''srv''] @ [''DV'', ''dbo'', ''Hub_Customer'']"
    by simp
  have "ParseQualifiedName ''Users'' = \<lparr>Database = [], Schema = [], Table = ''Users''\<rparr>"
    using ParseQualifiedName_parts [OF 1] by simp
  moreover have "ParseQualifiedName ''dbo.Users'' = \<lparr>Database = [], Schema = ''dbo'', Table = ''Users''\<rparr>"
    using ParseQualifiedName_parts [OF 2] by simp
  moreover have "ParseQualifiedName ''DV.dbo.Hub_Customer'' =
        \<lparr>Database = ''DV'', Schema = ''dbo'', Table = ''Hub_Customer''\<rparr>"
    using ParseQualifiedName_parts [OF 3] by simp
  moreover have "ParseQualifiedName ''[DV].[dbo].[Hub_Customer]'' =
        \<lparr>Database = ''DV'', Schema = ''dbo'', Table = ''Hub_Customer''\<rparr>"
    using ParseQualifiedName_parts [OF 4] by simp
  moreover have "ParseQualifiedName ''srv.DV.dbo.Hub_Customer'' =
        \<lparr>Database = ''DV'', Schema = ''dbo'', Table = ''Hub_Customer''\<rparr>"
    using ParseQualifiedName_parts [OF 5] by simp
  ultimately show ?thesis by (intro conjI)
qed

lemma filter_plain:
  "plain s \<Longrightarrow> filter (\<lambda>c. c \<noteq> CHR ''['' \<and> c \<noteq> CHR '']'') s = s"
  by (induction s) (auto simp: plain_def)

lemma BracketIdentifier_plain:
  "plain s \<Longrightarrow> BracketIdentifier s = (if TrimSpace s = [] then [] else ''['' @ TrimSpace s @ '']'')"
proof -
  assume "plain s"
  then have p: "plain (TrimSpace s)" by (rule plain_TrimSpace)
  have "\<not> HasPrefix (TrimSpace s) ''[''" if "TrimSpace s \<noteq> []"
    using p that by (cases "TrimSpace s") (auto simp: HasPrefix_def plain_def)
  then show ?thesis by (simp add: BracketIdentifier_def Let_def)
qed

text \<open>A part as it is emitted, and what parsing sees of it.\<close>

lemma parse3:
  assumes "plain d" "plain s" "plain t"
  shows "ParseQualifiedName (d @ ''.'' @ s @ ''.'' @ t) = \<lparr>Database = d, Schema = s, Table = t\<rparr>"
    and "ParseQualifiedName ((''['' @ d @ '']'') @ ''.'' @ (''['' @ s @ '']'') @ ''.'' @ (''['' @ t @ '']''))
          = \<lparr>Database = d, Schema = s, Table = t\<rparr>"
proof -
  have sp: "Split (d @ ''.'' @ s @ ''.'' @ t) (CHR ''.'') = [d, s, t]"
    using assms Split_append_sep [of "CHR ''.''" d "s @ ''.'' @ t"]
      Split_append_sep [of "CHR ''.''" s t] Split_no_sep [of "CHR ''.''" t]
    by (simp add: plain_def)
  show "ParseQualifiedName (d @ ''.'' @ s @ ''.'' @ t) = \<lparr>Database = d, Schema = s, Table = t\<rparr>"
    using assms sp by (simp add: ParseQualifiedName_def NormalizeBrackets_filter filter_plain)
  show "ParseQualifiedName ((''['' @ d @ '']'') @ ''.'' @ (''['' @ s @ '']'') @ ''.'' @ (''['' @ t @ '']''))
          = \<lparr>Database = d, Schema = s, Table = t\<rparr>"
    using assms sp by (simp add: ParseQualifiedName_def NormalizeBrackets_filter filter_plain)
qed

lemma parse2:
  assumes "plain s" "plain t"
  shows "ParseQualifiedName (s @ ''.'' @ t) = \<lparr>Database = [], Schema = s, Table = t\<rparr>"
    and "ParseQualifiedName ((''['' @ s @ '']'') @ ''.'' @ (''['' @ t @ '']''))
          = \<lparr>Database = [], Schema = s, Table = t\<rparr>"
proof -
  have sp: "Split (s @ ''.'' @ t) (CHR ''.'') = [s, t]"
    using assms Split_append_sep [of "CHR ''.''" s t] Split_no_sep [of "CHR ''.''" t]
    by (simp add: plain_def)
  show "ParseQualifiedName (s @ ''.'' @ t) = \<lparr>Database = [], Schema = s, Table = t\<rparr>"
    using assms sp by (simp add: ParseQualifiedName_def NormalizeBrackets_filter filter_plain)
  show "ParseQualifiedName ((''['' @ s @ '']'') @ ''.'' @ (''['' @ t @ '']''))
          = \<lparr>Database = [], Schema = s, Table = t\<rparr>"
    using assms sp by (simp add: ParseQualifiedName_def NormalizeBrackets_filter filter_plain)
qed

lemma parse1:
  assumes "plain t"
  shows "ParseQualifiedName t = \<lparr>Database = [], Schema = [], Table = t\<rparr>"
    and "ParseQualifiedName (''['' @ t @ '']'') = \<lparr>Database = [], Schema = [], Table = t\<rparr>"
proof -
  have sp: "Split t (CHR ''.'') = [t]"
    using assms Split_no_sep [of "CHR ''.''" t] by (simp add: plain_def)
  show "ParseQualifiedName t = \<lparr>Database = [], Schema = [], Table = t\<rparr>"
    using assms sp by (simp add: ParseQualifiedName_def NormalizeBrackets_filter filter_plain)
  show "ParseQualifiedName (''['' @ t @ '']'') = \<lparr>Database = [], Schema = [], Table = t\<rparr>"
    using assms sp by (simp add: ParseQualifiedName_def NormalizeBrackets_filter filter_plain)
qed

section \<open>Identifier model: building and parsing\<close>

text \<open>
  C10. \<open>BuildQualifiedName\<close> followed by \<open>ParseQualifiedName\<close> is a round trip: for
  table, schema and database names that are not empty, contain none of \<open>.\<close>, \<open>[\<close>
  and \<open>]\<close>, and have no white space at either end, and for either value of
  \<open>useBrackets\<close>, parsing the built name gives back the three components.
\<close>

theorem Build_Parse_roundtrip:
  assumes "table \<noteq> []" and "schema \<noteq> []" and "database \<noteq> []"
    and "plain table" and "plain schema" and "plain database"
    and "no_outer_space table" and "no_outer_space schema" and "no_outer_space database"
  shows "ParseQualifiedName (BuildQualifiedName table schema database useBrackets)
           = \<lparr>Database = database, Schema = schema, Table = table\<rparr>"
proof (cases useBrackets)
  case True
  have "BracketIdentifier table = ''['' @ table @ '']''"
    "BracketIdentifier schema = ''['' @ schema @ '']''"
    "BracketIdentifier database = ''['' @ database @ '']''"
    using assms by (simp_all add: BracketIdentifier_plain TrimSpace_id)
  then have "BuildQualifiedName table schema database useBrackets
      = (''['' @ database @ '']'') @ ''.'' @ (''['' @ schema @ '']'') @ ''.'' @ (''['' @ table @ '']'')"
    using assms True by (simp add: BuildQualifiedName_def)
  then show ?thesis using assms parse3(2) [of database schema table] by simp
next
  case False
  then have "BuildQualifiedName table schema database useBrackets
      = database @ ''.'' @ schema @ ''.'' @ table"
    using assms by (simp add: BuildQualifiedName_def)
  then show ?thesis using assms parse3(1) [of database schema table] by simp
qed

theorem Build_Parse_roundtrip_witness:
  "ParseQualifiedName (BuildQualifiedName ''Hub_Customer'' ''dbo'' ''DV'' True)
     = \<lparr>Database = ''DV'', Schema = ''dbo'', Table = ''Hub_Customer''\<rparr>
   \<and> BuildQualifiedName ''Hub_Customer'' ''dbo'' ''DV'' True = ''[DV].[dbo].[Hub_Customer]''"
proof -
  have ne: "''Hub_Customer'' \<noteq> []" "''dbo'' \<noteq> []" "''DV'' \<noteq> []" by simp_all
  have pl: "plain ''Hub_Customer''" "plain ''dbo''" "plain ''DV''"
    by (simp_all add: plain_def)
  have sp: "no_outer_space ''Hub_Customer''" "no_outer_space ''dbo''" "no_outer_space ''DV''"
    by (simp_all add: no_outer_space_def space_runes_def suffix_to_prefix)
  have b: "BracketIdentifier ''Hub_Customer'' = ''[Hub_Customer]''"
    "BracketIdentifier ''dbo'' = ''[dbo]''" "BracketIdentifier ''DV'' = ''[DV]''"
    using pl sp by (simp_all add: BracketIdentifier_plain TrimSpace_id)
  have "BuildQualifiedName ''Hub_Customer'' ''dbo'' ''DV'' True = ''[DV].[dbo].[Hub_Customer]''"
    by (simp add: BuildQualifiedName_def b)
  with Build_Parse_roundtrip [OF ne pl sp, of True] show ?thesis by simp
qed

lemma Split_parts_subset: "p \<in> set (Split s c) \<Longrightarrow> set p \<subseteq> set s"
proof (induction s arbitrary: p)
  case Nil
  then show ?case by simp
next
  case (Cons a s)
  from Split_ne [of s c] obtain q qs where q: "Split s c = q # qs"
    by (cases "Split s c") auto
  show ?case
  proof (cases "a = c")
    case True
    with Cons show ?thesis by auto
  next
    case False
    with Cons.prems q have "p = a # q \<or> p \<in> set qs" by simp
    then show ?thesis
    proof
      assume "p = a # q"
      moreover have "set q \<subseteq> set s" using Cons.IH [of q] q by simp
      ultimately show ?thesis by auto
    next
      assume "p \<in> set qs"
      then have "set p \<subseteq> set s" using Cons.IH [of p] q by simp
      then show ?thesis by auto
    qed
  qed
qed

lemma plain_Nil: "plain []"
  by (simp add: plain_def)

lemma plain_part:
  assumes "p \<in> set (Split (NormalizeBrackets n) (CHR ''.''))"
  shows "plain p"
proof -
  have "CHR ''.'' \<notin> set p" using assms by (rule Split_parts_no_sep)
  moreover have "set p \<subseteq> set (NormalizeBrackets n)" using assms by (rule Split_parts_subset)
  then have "CHR ''['' \<notin> set p \<and> CHR '']'' \<notin> set p"
    by (auto simp: NormalizeBrackets_filter)
  ultimately show ?thesis by (simp add: plain_def)
qed

lemma Parse_plain:
  "plain (Database (ParseQualifiedName n))"
  "plain (Schema (ParseQualifiedName n))"
  "plain (Table (ParseQualifiedName n))"
proof -
  let ?ps = "Split (NormalizeBrackets n) (CHR ''.'')"
  have nth: "plain (?ps ! i)" if "i < length ?ps" for i
    using that by (intro plain_part [of _ n]) simp
  show "plain (Database (ParseQualifiedName n))"
    by (simp add: ParseQualifiedName_def Let_def plain_Nil nth)
  show "plain (Schema (ParseQualifiedName n))"
    by (simp add: ParseQualifiedName_def Let_def plain_Nil nth)
  show "plain (Table (ParseQualifiedName n))"
    by (simp add: ParseQualifiedName_def Let_def plain_Nil nth)
qed

lemma Parse_Nil: "ParseQualifiedName [] = \<lparr>Database = [], Schema = [], Table = []\<rparr>"
  by (simp add: ParseQualifiedName_def NormalizeBrackets_filter)

lemma norm_part_Nil: "norm_part ub [] = []"
  by (simp add: norm_part_def TrimSpace_Nil)

lemma norm_part_eq_Nil: "\<not> blank x \<Longrightarrow> norm_part ub x = [] \<longleftrightarrow> x = []"
  by (auto simp: norm_part_def blank_def TrimSpace_Nil)

lemma norm_part_idem: "norm_part ub (norm_part ub x) = norm_part ub x"
  by (simp add: norm_part_def TrimSpace_idem)

lemma norm_part_plain: "plain x \<Longrightarrow> plain (norm_part ub x)"
  by (simp add: norm_part_def plain_TrimSpace)

lemma norm_part_not_blank: "\<not> blank (norm_part True x)"
  by (simp add: norm_part_def blank_def TrimSpace_idem)

text \<open>The built name, part by part.\<close>

lemma Build_parts:
  assumes "plain d" "plain s" "plain t"
    and "ub \<longrightarrow> \<not> blank d \<and> \<not> blank s \<and> \<not> blank t"
  shows "BuildQualifiedName t s d ub =
           Join (map (\<lambda>x. if ub then ''['' @ norm_part ub x @ '']'' else norm_part ub x)
                  (filter (\<lambda>x. x \<noteq> []) [d, s, t])) ''.''"
proof (cases ub)
  case True
  have "BracketIdentifier x = ''['' @ TrimSpace x @ '']''" if "plain x" "x \<noteq> []" "\<not> blank x" for x
    using that by (simp add: BracketIdentifier_plain blank_def)
  with assms True show ?thesis
    by (simp add: BuildQualifiedName_def norm_part_def)
next
  case False
  then show ?thesis by (simp add: BuildQualifiedName_def norm_part_def)
qed

lemma Build_norm:
  assumes "plain d" "plain s" "plain t"
    and "ub \<longrightarrow> \<not> blank d \<and> \<not> blank s \<and> \<not> blank t"
  shows "BuildQualifiedName (norm_part ub t) (norm_part ub s) (norm_part ub d) ub
           = BuildQualifiedName t s d ub"
proof -
  have nb: "ub \<longrightarrow> \<not> blank (norm_part ub d) \<and> \<not> blank (norm_part ub s) \<and> \<not> blank (norm_part ub t)"
    using norm_part_not_blank by simp
  have e: "norm_part ub x = [] \<longleftrightarrow> x = []" if "x \<in> {d, s, t}" for x
  proof (cases ub)
    case True
    with assms that have "\<not> blank x" by auto
    then show ?thesis by (rule norm_part_eq_Nil)
  next
    case False
    then show ?thesis by (simp add: norm_part_def)
  qed
  show ?thesis
    using e [of d] e [of s] e [of t]
    by (simp add: Build_parts [OF assms]
        Build_parts [OF norm_part_plain [OF assms(1)] norm_part_plain [OF assms(2)]
          norm_part_plain [OF assms(3)] nb] norm_part_idem)
qed

lemma Build_swap: "BuildQualifiedName t x [] ub = BuildQualifiedName t [] x ub"
  by (simp add: BuildQualifiedName_def)

lemma Parse_Build:
  assumes "plain d" "plain s" "plain t" "t \<noteq> []"
    and "ub \<longrightarrow> \<not> blank d \<and> \<not> blank s \<and> \<not> blank t"
  shows "ParseQualifiedName (BuildQualifiedName t s d ub) =
           \<lparr>Database = (if d \<noteq> [] \<and> s \<noteq> [] then norm_part ub d else []),
            Schema = (if s \<noteq> [] then norm_part ub s else norm_part ub d),
            Table = norm_part ub t\<rparr>"
    and "BuildQualifiedName t s d ub \<noteq> []"
proof -
  let ?d = "norm_part ub d" and ?s = "norm_part ub s" and ?t = "norm_part ub t"
  let ?r = "BuildQualifiedName t s d ub"
  have pl: "plain ?d" "plain ?s" "plain ?t"
    using assms by (simp_all add: norm_part_plain)
  note B = Build_parts [OF assms(1,2,3,5)]
  have "ParseQualifiedName ?r =
           \<lparr>Database = (if d \<noteq> [] \<and> s \<noteq> [] then ?d else []),
            Schema = (if s \<noteq> [] then ?s else ?d), Table = ?t\<rparr> \<and> ?r \<noteq> []"
  proof (cases ub)
    case True
    consider (a) "d \<noteq> []" "s \<noteq> []" | (b) "d = []" "s \<noteq> []"
      | (c) "d \<noteq> []" "s = []" | (e) "d = []" "s = []" by blast
    then show ?thesis
    proof cases
      case a
      with assms(4) True B have "?r = (''['' @ ?d @ '']'') @ ''.'' @ (''['' @ ?s @ '']'') @ ''.'' @ (''['' @ ?t @ '']'')"
        by simp
      with a parse3(2) [OF pl] show ?thesis by simp
    next
      case b
      with assms(4) True B have "?r = (''['' @ ?s @ '']'') @ ''.'' @ (''['' @ ?t @ '']'')"
        by simp
      with b parse2(2) [OF pl(2,3)] show ?thesis by simp
    next
      case c
      with assms(4) True B have "?r = (''['' @ ?d @ '']'') @ ''.'' @ (''['' @ ?t @ '']'')"
        by simp
      with c parse2(2) [OF pl(1,3)] show ?thesis by simp
    next
      case e
      with assms(4) True B have "?r = ''['' @ ?t @ '']''"
        by simp
      with e parse1(2) [OF pl(3)] show ?thesis by (simp add: norm_part_Nil)
    qed
  next
    case False
    then have nt: "?t \<noteq> []" using assms(4) by (simp add: norm_part_def)
    consider (a) "d \<noteq> []" "s \<noteq> []" | (b) "d = []" "s \<noteq> []"
      | (c) "d \<noteq> []" "s = []" | (e) "d = []" "s = []" by blast
    then show ?thesis
    proof cases
      case a
      with assms(4) False B have "?r = ?d @ ''.'' @ ?s @ ''.'' @ ?t"
        by simp
      with a parse3(1) [OF pl] show ?thesis by simp
    next
      case b
      with assms(4) False B have "?r = ?s @ ''.'' @ ?t"
        by simp
      with b parse2(1) [OF pl(2,3)] show ?thesis by simp
    next
      case c
      with assms(4) False B have "?r = ?d @ ''.'' @ ?t"
        by simp
      with c parse2(1) [OF pl(1,3)] show ?thesis by simp
    next
      case e
      with assms(4) False B have "?r = ?t"
        by simp
      with e nt parse1(1) [OF pl(3)] show ?thesis by (simp add: norm_part_Nil)
    qed
  qed
  then show "ParseQualifiedName ?r =
           \<lparr>Database = (if d \<noteq> [] \<and> s \<noteq> [] then ?d else []),
            Schema = (if s \<noteq> [] then ?s else ?d), Table = ?t\<rparr>"
    and "?r \<noteq> []" by simp_all
qed


section \<open>Identifier model: standardizing twice\<close>

text \<open>
  C9, as amended. \<open>StandardizeTableName\<close> applied twice with the same defaults and the
  same \<open>useBrackets\<close> equals one application, for every name whose parsed \<open>Table\<close>
  part is not empty and all defaults without \<open>.\<close>, \<open>[\<close> and \<open>]\<close>, provided that
  the default schema is not empty unless the default database is empty too, and
  that, when brackets are used, none of the parsed parts and defaults is white space
  only. As the claim is written (any defaults without the three characters) it
  fails: with default database \<open>D\<close> and an empty default schema, \<open>Users\<close> becomes
  \<open>D.Users\<close> and then \<open>D.D.Users\<close>.
\<close>

theorem StandardizeTableName_idem:
  assumes pd: "plain defaultDB" and ps: "plain defaultSchema"
    and tne: "Table (ParseQualifiedName name) \<noteq> []"
    and dflt: "defaultSchema \<noteq> [] \<or> defaultDB = []"
    and sp: "useBrackets \<longrightarrow>
           \<not> blank (Database (ParseQualifiedName name)) \<and>
           \<not> blank (Schema (ParseQualifiedName name)) \<and>
           \<not> blank (Table (ParseQualifiedName name)) \<and>
           \<not> blank defaultDB \<and> \<not> blank defaultSchema"
  shows "StandardizeTableName (StandardizeTableName name defaultDB defaultSchema useBrackets)
           defaultDB defaultSchema useBrackets
         = StandardizeTableName name defaultDB defaultSchema useBrackets"
proof -
  let ?P = "ParseQualifiedName name"
  let ?n = "norm_part useBrackets"
  define d where "d = (if Database ?P = [] then defaultDB else Database ?P)"
  define s where "s = (if Schema ?P = [] then defaultSchema else Schema ?P)"
  define t where "t = Table ?P"
  define r where "r = BuildQualifiedName t s d useBrackets"
  have nne: "name \<noteq> []" using tne by (auto simp: Parse_Nil)
  then have r1: "StandardizeTableName name defaultDB defaultSchema useBrackets = r"
    by (simp add: StandardizeTableName_def Let_def r_def d_def s_def t_def)
  have pl: "plain d" "plain s" "plain t"
    using pd ps Parse_plain [of name] by (simp_all add: d_def s_def t_def)
  have t0: "t \<noteq> []" using tne by (simp add: t_def)
  have nb: "useBrackets \<longrightarrow> \<not> blank d \<and> \<not> blank s \<and> \<not> blank t"
    using sp by (simp add: d_def s_def t_def)
  have nb': "useBrackets \<longrightarrow> \<not> blank (?n d) \<and> \<not> blank (?n s) \<and> \<not> blank (?n t)"
    using norm_part_not_blank by simp
  have e: "?n x = [] \<longleftrightarrow> x = []" if "x \<in> {d, s, t}" for x
  proof (cases useBrackets)
    case True
    with nb that have "\<not> blank x" by auto
    then show ?thesis by (rule norm_part_eq_Nil)
  next
    case False
    then show ?thesis by (simp add: norm_part_def)
  qed
  have PB: "ParseQualifiedName r =
      \<lparr>Database = (if d \<noteq> [] \<and> s \<noteq> [] then ?n d else []),
       Schema = (if s \<noteq> [] then ?n s else ?n d), Table = ?n t\<rparr>"
    unfolding r_def by (rule Parse_Build(1) [OF pl t0 nb])
  have rne: "r \<noteq> []"
    unfolding r_def by (rule Parse_Build(2) [OF pl t0 nb])
  have norm: "BuildQualifiedName (?n t) (?n s) (?n d) useBrackets = r"
    unfolding r_def by (rule Build_norm [OF pl nb])
  have d0: "defaultDB = []" if "d = []"
    using that by (simp add: d_def split: if_splits)
  have s0: "defaultSchema = []" if "s = []"
    using that by (simp add: s_def split: if_splits)
  have "StandardizeTableName r defaultDB defaultSchema useBrackets = r"
  proof -
    consider (a) "d \<noteq> []" "s \<noteq> []" | (b) "d = []" "s \<noteq> []"
      | (c) "d \<noteq> []" "s = []" | (e) "d = []" "s = []" by blast
    then show ?thesis
    proof cases
      case a
      then have "?n d \<noteq> []" "?n s \<noteq> []" using e [of d] e [of s] by simp_all
      with a rne PB norm show ?thesis
        by (simp add: StandardizeTableName_def Let_def)
    next
      case b
      then have "?n s \<noteq> []" using e [of s] by simp
      moreover have "?n d = []" using b e [of d] by simp
      ultimately show ?thesis
        using b rne PB norm d0
        by (simp add: StandardizeTableName_def Let_def)
    next
      case c
      then have nd: "?n d \<noteq> []" using e [of d] by simp
      have ns: "?n s = []" using c e [of s] by simp
      from c s0 dflt have "defaultDB = []" by simp
      moreover have "BuildQualifiedName (?n t) (?n d) [] useBrackets = r"
        using norm ns by (simp add: Build_swap)
      ultimately show ?thesis
        using c rne PB nd
        by (simp add: StandardizeTableName_def Let_def)
    next
      case e
      then have "?n d = []" "?n s = []" by (simp_all add: norm_part_Nil)
      with e rne PB norm d0 s0 show ?thesis
        by (simp add: StandardizeTableName_def Let_def)
    qed
  qed
  with r1 show ?thesis by simp
qed

text \<open>
  The claim as written, at name \<open>Users\<close>, default database \<open>D\<close>, empty default
  schema, no brackets: its hypotheses hold and the second application differs.
\<close>

theorem StandardizeTableName_idem_counterexample:
  "plain ''D'' \<and> plain [] \<and> Table (ParseQualifiedName ''Users'') \<noteq> []
   \<and> StandardizeTableName ''Users'' ''D'' [] False = ''D.Users''
   \<and> StandardizeTableName (StandardizeTableName ''Users'' ''D'' [] False) ''D'' [] False
       = ''D.D.Users''
   \<and> StandardizeTableName (StandardizeTableName ''Users'' ''D'' [] False) ''D'' [] False
       \<noteq> StandardizeTableName ''Users'' ''D'' [] False"
proof -
  have p1: "ParseQualifiedName ''Users'' = \<lparr>Database = [], Schema = [], Table = ''Users''\<rparr>"
    by (simp add: ParseQualifiedName_def NormalizeBrackets_filter)
  have p2: "ParseQualifiedName ''D.Users'' = \<lparr>Database = [], Schema = ''D'', Table = ''Users''\<rparr>"
    by (simp add: ParseQualifiedName_def NormalizeBrackets_filter)
  have s1: "StandardizeTableName ''Users'' ''D'' [] False = ''D.Users''"
    by (simp add: StandardizeTableName_def p1 BuildQualifiedName_def)
  have s2: "StandardizeTableName ''D.Users'' ''D'' [] False = ''D.D.Users''"
    by (simp add: StandardizeTableName_def p2 BuildQualifiedName_def)
  show ?thesis
    by (simp add: s1 s2 p1 plain_def)
qed

theorem StandardizeTableName_idem_witness:
  "StandardizeTableName (StandardizeTableName ''sales.Orders'' ''DV'' ''dbo'' True) ''DV'' ''dbo'' True
     = StandardizeTableName ''sales.Orders'' ''DV'' ''dbo'' True
   \<and> StandardizeTableName (StandardizeTableName ''Users'' ''D'' ''s'' False) ''D'' ''s'' False
     = StandardizeTableName ''Users'' ''D'' ''s'' False"
proof -
  have p1: "ParseQualifiedName ''sales.Orders'' = \<lparr>Database = [], Schema = ''sales'', Table = ''Orders''\<rparr>"
    by (simp add: ParseQualifiedName_def NormalizeBrackets_filter)
  have p2: "ParseQualifiedName ''Users'' = \<lparr>Database = [], Schema = [], Table = ''Users''\<rparr>"
    by (simp add: ParseQualifiedName_def NormalizeBrackets_filter)
  have pl: "plain ''DV''" "plain ''dbo''" "plain ''D''" "plain ''s''"
    by (simp_all add: plain_def)
  have nos: "no_outer_space ''sales''" "no_outer_space ''Orders''" "no_outer_space ''DV''"
    "no_outer_space ''dbo''"
    by (simp_all add: no_outer_space_def space_runes_def suffix_to_prefix)
  have nb: "\<not> blank []" "\<not> blank ''sales''" "\<not> blank ''Orders''" "\<not> blank ''DV''" "\<not> blank ''dbo''"
    using nos by (simp_all add: blank_def TrimSpace_id)
  have a: "StandardizeTableName (StandardizeTableName ''sales.Orders'' ''DV'' ''dbo'' True) ''DV'' ''dbo'' True
     = StandardizeTableName ''sales.Orders'' ''DV'' ''dbo'' True"
    by (rule StandardizeTableName_idem) (simp_all add: p1 pl nb)
  have b: "StandardizeTableName (StandardizeTableName ''Users'' ''D'' ''s'' False) ''D'' ''s'' False
     = StandardizeTableName ''Users'' ''D'' ''s'' False"
    by (rule StandardizeTableName_idem) (simp_all add: p2 pl)
  from a b show ?thesis by (rule conjI)
qed

text \<open>White space alone as the table part also breaks idempotence when brackets are used.\<close>

lemma StandardizeTableName_blank_table:
  "Table (ParseQualifiedName '' '') \<noteq> []
   \<and> StandardizeTableName '' '' ''D'' ''S'' True = ''[D].[S].''
   \<and> StandardizeTableName ''[D].[S].'' ''D'' ''S'' True = ''[D].[S]''"
proof -
  have p1: "ParseQualifiedName '' '' = \<lparr>Database = [], Schema = [], Table = '' ''\<rparr>"
    by (simp add: ParseQualifiedName_def NormalizeBrackets_filter)
  have p2: "ParseQualifiedName ''[D].[S].'' = \<lparr>Database = ''D'', Schema = ''S'', Table = []\<rparr>"
    by (simp add: ParseQualifiedName_def NormalizeBrackets_filter)
  have nos: "no_outer_space ''D''" "no_outer_space ''S''"
    by (simp_all add: no_outer_space_def space_runes_def suffix_to_prefix)
  have tl: "trim_left '' '' = []"
    by (simp add: trim_left.simps [of "'' ''"] trim_left.simps [of "[]"] space_runes_def)
  have "trim_right [] = []"
    by (simp add: trim_right.simps [of "[]"] space_runes_def)
  with tl have ts: "TrimSpace '' '' = []" by (simp add: TrimSpace_def)
  have b: "BracketIdentifier ''D'' = ''[D]''" "BracketIdentifier ''S'' = ''[S]''"
    "BracketIdentifier '' '' = []"
    using nos ts by (simp_all add: BracketIdentifier_def TrimSpace_id HasPrefix_def)
  show ?thesis
    by (simp add: StandardizeTableName_def p1 p2 BuildQualifiedName_def b)
qed

section \<open>Dedup engine\<close>

lemma survivor_single: "survivor [x] = x"
  by (simp add: survivor_def)

lemma survivor_snoc:
  assumes "cands \<noteq> []"
  shows "survivor (cands @ [x]) =
           (if \<not> rel_Virtual x \<and> rel_Virtual (survivor cands) then x else survivor cands)"
proof (cases "find (\<lambda>r. \<not> rel_Virtual r) cands")
  case None
  then have all: "\<forall>r\<in>set cands. rel_Virtual r" by (auto simp: find_None_iff)
  with assms have "rel_Virtual (hd cands)" by simp
  moreover have "find (\<lambda>r. \<not> rel_Virtual r) (cands @ [x]) = (if \<not> rel_Virtual x then Some x else None)"
    using None by (induction cands) (auto split: if_splits)
  ultimately show ?thesis using assms None by (simp add: survivor_def)
next
  case (Some r)
  then have nv: "\<not> rel_Virtual r" by (auto simp: find_Some_iff)
  have f: "find (\<lambda>r. \<not> rel_Virtual r) (cands @ [x]) = Some r"
    using Some by (induction cands) (auto split: if_splits)
  have "\<not> rel_Virtual (survivor cands)"
    using Some nv by (simp add: survivor_def)
  then show ?thesis using assms Some f by (simp add: survivor_def)
qed

lemma survivor_mem: "cands \<noteq> [] \<Longrightarrow> survivor cands \<in> set cands"
  by (auto simp: survivor_def find_Some_iff split: option.splits)

lemma survivor_nonvirtual:
  assumes "c \<in> set cands" "\<not> rel_Virtual c"
  shows "\<not> rel_Virtual (survivor cands)"
proof -
  from assms obtain r where r: "find (\<lambda>r. \<not> rel_Virtual r) cands = Some r"
    by (cases "find (\<lambda>r. \<not> rel_Virtual r) cands") (auto simp: find_None_iff)
  then have "\<not> rel_Virtual r" by (auto simp: find_Some_iff)
  with r show ?thesis by (simp add: survivor_def)
qed

lemma dedup_inv_Nil: "dedup_inv [] []"
  by (simp add: dedup_inv_def candidates_def)

lemma dedup_inv_step:
  assumes "dedup_inv rs seen"
  shows "dedup_inv (rs @ [x]) (dedup_step seen x)"
proof -
  let ?k = "relKey_of x"
  from assms have d: "distinct (map fst seen)"
    and m: "\<And>k. map_of seen k =
        (if candidates k rs = [] then None else Some (survivor (candidates k rs)))"
    unfolding dedup_inv_def by blast+
  have other: "candidates k (rs @ [x]) = candidates k rs" if "k \<noteq> ?k" for k
    using that by (auto simp: candidates_def)
  have same: "candidates ?k (rs @ [x]) = candidates ?k rs @ [x]"
    by (simp add: candidates_def)
  have dist: "distinct (map fst (dedup_step seen x))"
    using d by (simp add: dedup_step_def Let_def distinct_update split: option.splits)
  have "map_of (dedup_step seen x) k =
        (if candidates k (rs @ [x]) = [] then None
         else Some (survivor (candidates k (rs @ [x]))))" for k
  proof (cases "k = ?k")
    case False
    then have "map_of (dedup_step seen x) k = map_of seen k"
      by (simp add: dedup_step_def Let_def update_conv' split: option.splits)
    with False show ?thesis by (simp add: other m)
  next
    case True
    show ?thesis
    proof (cases "candidates ?k rs = []")
      case e: True
      then have "map_of seen ?k = None" by (simp add: m)
      then have "map_of (dedup_step seen x) ?k = Some x"
        by (simp add: dedup_step_def Let_def update_conv')
      with True e show ?thesis by (simp add: same survivor_single)
    next
      case ne: False
      then have s: "map_of seen ?k = Some (survivor (candidates ?k rs))" by (simp add: m)
      then have "map_of (dedup_step seen x) ?k =
          Some (if \<not> rel_Virtual x \<and> rel_Virtual (survivor (candidates ?k rs)) then x
                else survivor (candidates ?k rs))"
        by (simp add: dedup_step_def Let_def update_conv')
      with True ne show ?thesis by (simp add: same survivor_snoc)
    qed
  qed
  with dist show ?thesis unfolding dedup_inv_def by blast
qed

lemma dedup_inv_seen: "dedup_inv rs (dedup_seen rs)"
proof (induction rs rule: rev_induct)
  case Nil
  then show ?case by (simp add: dedup_seen_def dedup_inv_Nil)
next
  case (snoc x xs)
  then show ?case using dedup_inv_step [of xs "dedup_seen xs" x] by (simp add: dedup_seen_def)
qed

lemma candidates_key: "r \<in> set (candidates k rs) \<Longrightarrow> relKey_of r = k"
  by (simp add: candidates_def)

lemma dedup_inv_entry:
  assumes "dedup_inv rs seen" "(k, v) \<in> set seen"
  shows "v = survivor (candidates k rs) \<and> candidates k rs \<noteq> [] \<and> relKey_of v = k"
proof -
  from assms have "map_of seen k = Some v" unfolding dedup_inv_def by simp
  moreover from assms(1) have "map_of seen k =
      (if candidates k rs = [] then None else Some (survivor (candidates k rs)))"
    unfolding dedup_inv_def by blast
  ultimately have c: "candidates k rs \<noteq> []" and v: "v = survivor (candidates k rs)"
    by (auto split: if_splits)
  from survivor_mem [OF c] v have "v \<in> set (candidates k rs)" by simp
  then have "relKey_of v = k" by (rule candidates_key)
  with c v show ?thesis by simp
qed

text \<open>In a list with one entry per key, the values of key \<open>k\<close> are the one entry of \<open>k\<close>.\<close>

lemma filter_values:
  assumes "distinct (map fst al)" "\<forall>(k', v) \<in> set al. key v = k'" "map_of al k = Some v"
  shows "filter (\<lambda>v. key v = k) (map snd al) = [v]"
  using assms
proof (induction al)
  case Nil
  then show ?case by simp
next
  case (Cons p al)
  obtain k' v' where p: "p = (k', v')" by (cases p)
  show ?case
  proof (cases "k' = k")
    case True
    with Cons.prems p have v: "v' = v" and kv: "key v = k" by auto
    have "key w \<noteq> k" if "w \<in> snd ` set al" for w
    proof
      assume kw: "key w = k"
      from that obtain kk where in_al: "(kk, w) \<in> set al" by auto
      with Cons.prems(2) have "key w = kk" by auto
      with kw in_al have "k \<in> fst ` set al" by force
      with Cons.prems(1) p True show False by simp
    qed
    then have "filter (\<lambda>v. key v = k) (map snd al) = []"
      by (auto simp: filter_empty_conv)
    with p v kv show ?thesis by simp
  next
    case False
    with Cons.prems p have "key v' \<noteq> k" by auto
    moreover from Cons.prems p False have "filter (\<lambda>v. key v = k) (map snd al) = [v]"
      by (intro Cons.IH) auto
    ultimately show ?thesis using p by simp
  qed
qed

lemma mset_eq_single: "mset xs = {#x#} \<Longrightarrow> xs = [x]"
  by (cases xs) auto

lemma dedup_keys: "set (map fst (dedup_seen rs)) = relKey_of ` set rs"
proof -
  have inv: "dedup_inv rs (dedup_seen rs)" by (rule dedup_inv_seen)
  have "k \<in> set (map fst (dedup_seen rs)) \<longleftrightarrow> k \<in> relKey_of ` set rs" for k
  proof -
    have "k \<in> set (map fst (dedup_seen rs)) \<longleftrightarrow> map_of (dedup_seen rs) k \<noteq> None"
      by (simp add: map_of_eq_None_iff)
    also have "\<dots> \<longleftrightarrow> candidates k rs \<noteq> []"
    proof -
      from inv have "map_of (dedup_seen rs) k =
        (if candidates k rs = [] then None else Some (survivor (candidates k rs)))"
        unfolding dedup_inv_def by blast
      then show ?thesis by simp
    qed
    also have "\<dots> \<longleftrightarrow> k \<in> relKey_of ` set rs"
      by (auto simp: candidates_def filter_empty_conv)
    finally show ?thesis .
  qed
  then show ?thesis by blast
qed

text \<open>
  C1. For every input list and every list \<open>DeduplicateRelations\<close> can return for it:
  the relations of the result with the identity key of an input relation are
  exactly one relation, the survivor of the candidates with that key (the first
  seen, unless it is virtual and a later candidate is not, and then that one);
  every relation of the result is one of the input, and the result has as many
  relations as the input has keys; whenever a key has a candidate that is not
  virtual, the relation kept for that key is not virtual either, whatever the
  order of the input.
\<close>

theorem DeduplicateRelations_survivors:
  assumes "DeduplicateRelations relations result"
  shows "(\<forall>c\<in>set relations.
            filter (\<lambda>r. relKey_of r = relKey_of c) result
              = [survivor (candidates (relKey_of c) relations)])
       \<and> set result \<subseteq> set relations
       \<and> length result = card (relKey_of ` set relations)
       \<and> (\<forall>c\<in>set relations. \<not> rel_Virtual c \<longrightarrow>
            (\<forall>r\<in>set result. relKey_of r = relKey_of c \<longrightarrow> \<not> rel_Virtual r))"
proof -
  let ?seen = "dedup_seen relations"
  have inv: "dedup_inv relations ?seen" by (rule dedup_inv_seen)
  then have dist: "distinct (map fst ?seen)" unfolding dedup_inv_def by blast
  from assms have ms: "mset result = mset (map snd ?seen)"
    by (simp add: DeduplicateRelations_def)
  have keyed: "\<forall>(k', v) \<in> set ?seen. relKey_of v = k'"
    using dedup_inv_entry [OF inv] by blast
  have one: "filter (\<lambda>r. relKey_of r = relKey_of c) result
              = [survivor (candidates (relKey_of c) relations)]"
    if c: "c \<in> set relations" for c
  proof -
    let ?k = "relKey_of c"
    from c have ne: "candidates ?k relations \<noteq> []"
      by (auto simp: candidates_def filter_empty_conv)
    from inv have "map_of ?seen ?k =
        (if candidates ?k relations = [] then None else Some (survivor (candidates ?k relations)))"
      unfolding dedup_inv_def by blast
    with ne have "map_of ?seen ?k = Some (survivor (candidates ?k relations))" by simp
    from filter_values [OF dist keyed this]
    have fv: "filter (\<lambda>v. relKey_of v = ?k) (map snd ?seen) = [survivor (candidates ?k relations)]" .
    have "mset (filter (\<lambda>v. relKey_of v = ?k) result)
            = filter_mset (\<lambda>v. relKey_of v = ?k) (mset (map snd ?seen))"
      by (simp only: mset_filter ms)
    also have "\<dots> = mset (filter (\<lambda>v. relKey_of v = ?k) (map snd ?seen))"
      by (simp only: mset_filter)
    also have "\<dots> = {#survivor (candidates ?k relations)#}"
      by (simp only: fv) simp
    finally have "mset (filter (\<lambda>v. relKey_of v = ?k) result)
            = {#survivor (candidates ?k relations)#}" .
    then show ?thesis by (rule mset_eq_single)
  qed
  have sub: "set result \<subseteq> set relations"
  proof
    fix r assume "r \<in> set result"
    then have "r \<in># mset result" by simp
    then have "r \<in># mset (map snd ?seen)" by (simp only: ms)
    then have "r \<in> set (map snd ?seen)" by simp
    then obtain k where "(k, r) \<in> set ?seen" by auto
    from dedup_inv_entry [OF inv this]
    have "r = survivor (candidates k relations)" "candidates k relations \<noteq> []" by simp_all
    with survivor_mem [of "candidates k relations"] have "r \<in> set (candidates k relations)" by simp
    then show "r \<in> set relations" by (simp add: candidates_def)
  qed
  have len: "length result = card (relKey_of ` set relations)"
  proof -
    have "size (mset result) = size (mset (map snd ?seen))" by (simp only: ms)
    then have "length result = length (map fst ?seen)" by simp
    also have "\<dots> = card (set (map fst ?seen))"
      using distinct_card [OF dist] by simp
    finally show ?thesis by (simp only: dedup_keys)
  qed
  have nv: "\<not> rel_Virtual r"
    if c: "c \<in> set relations" "\<not> rel_Virtual c" and r: "r \<in> set result" "relKey_of r = relKey_of c"
    for c r
  proof -
    from r have "r \<in> set (filter (\<lambda>r. relKey_of r = relKey_of c) result)" by simp
    with one [OF c(1)] have "r = survivor (candidates (relKey_of c) relations)" by simp
    moreover from c have "c \<in> set (candidates (relKey_of c) relations)"
      by (simp add: candidates_def)
    ultimately show ?thesis using survivor_nonvirtual c(2) by blast
  qed
  from one sub len nv show ?thesis by blast
qed

lemma test_keys:
  "relKey_of test_fk = (''[DV].[dbo].[Orders]'', ''customer_id'', ''[DV].[dbo].[Customers]'', ''id'')"
  "relKey_of test_dup = (''[DV].[dbo].[Orders]'', ''customer_id'', ''[DV].[dbo].[Customers]'', ''id'')"
  "relKey_of test_other = (''[DV].[dbo].[Orders]'', ''product_id'', ''[DV].[dbo].[Products]'', ''id'')"
  by (simp_all add: relKey_of_def test_fk_def test_dup_def test_other_def test_relation_def
      Table_named_def)

lemma test_virtual:
  "\<not> rel_Virtual test_fk" "rel_Virtual test_dup" "rel_Virtual test_other"
  by (simp_all add: test_fk_def test_dup_def test_other_def test_relation_def)

lemma test_seen:
  "dedup_seen [test_fk, test_dup, test_other] =
     [(relKey_of test_fk, test_fk), (relKey_of test_other, test_other)]"
  "dedup_seen [test_dup, test_fk, test_other] =
     [(relKey_of test_fk, test_fk), (relKey_of test_other, test_other)]"
  by (simp_all add: dedup_seen_def dedup_step_def test_keys test_virtual)

theorem DeduplicateRelations_survivors_witness:
  "DeduplicateRelations [test_dup, test_fk, test_other] [test_other, test_fk]
   \<and> filter (\<lambda>r. relKey_of r = relKey_of test_dup) [test_other, test_fk] = [test_fk]
   \<and> survivor (candidates (relKey_of test_dup) [test_dup, test_fk, test_other]) = test_fk
   \<and> length [test_other, test_fk] = card (relKey_of ` set [test_dup, test_fk, test_other])"
proof -
  have h: "DeduplicateRelations [test_dup, test_fk, test_other] [test_other, test_fk]"
    by (simp add: DeduplicateRelations_def test_seen)
  have f: "filter (\<lambda>r. relKey_of r = relKey_of test_dup) [test_other, test_fk] = [test_fk]"
    by (simp add: test_keys)
  from DeduplicateRelations_survivors [OF h]
  have "filter (\<lambda>r. relKey_of r = relKey_of test_dup) [test_other, test_fk]
          = [survivor (candidates (relKey_of test_dup) [test_dup, test_fk, test_other])]"
    and "length [test_other, test_fk] = card (relKey_of ` set [test_dup, test_fk, test_other])"
    by simp_all
  with h f show ?thesis by simp
qed

section \<open>Regular expressions: what a match can be\<close>

lemma class_step_suffix: "class_step P ws s = Some s' \<Longrightarrow> suffix s' s"
  by (cases s) (auto simp: suffix_drop suffix_ConsI split: if_splits list.splits)

lemma star_greedy_suffix: "s' \<in> set (star_greedy P ws s) \<Longrightarrow> suffix s' s"
proof (induction P ws s rule: star_greedy.induct)
  case (1 P ws s)
  show ?case
  proof (cases "class_step P ws s")
    case None
    with "1.prems" show ?thesis by (simp add: star_greedy.simps [of P ws s])
  next
    case (Some t)
    with "1.prems" have "s' \<in> set (star_greedy P ws t) \<or> s' = s"
      by (auto simp: star_greedy.simps [of P ws s])
    then show ?thesis
    proof
      assume "s' \<in> set (star_greedy P ws t)"
      then have "suffix s' t" using "1.IH" Some by simp
      moreover have "suffix t s" using Some by (rule class_step_suffix)
      ultimately show ?thesis by (rule suffix_order.trans)
    qed simp
  qed
qed

lemma star_lazy_suffix: "s' \<in> set (star_lazy P ws s) \<Longrightarrow> suffix s' s"
proof (induction P ws s rule: star_lazy.induct)
  case (1 P ws s)
  show ?case
  proof (cases "class_step P ws s")
    case None
    with "1.prems" show ?thesis by (simp add: star_lazy.simps [of P ws s])
  next
    case (Some t)
    with "1.prems" have "s' = s \<or> s' \<in> set (star_lazy P ws t)"
      by (auto simp: star_lazy.simps [of P ws s])
    then show ?thesis
    proof
      assume "s' \<in> set (star_lazy P ws t)"
      then have "suffix s' t" using "1.IH" Some by simp
      moreover have "suffix t s" using Some by (rule class_step_suffix)
      ultimately show ?thesis by (rule suffix_order.trans)
    qed simp
  qed
qed

lemma rmatch_sound:
  "(s', caps') \<in> set (rmatch r s caps) \<Longrightarrow> suffix s' s \<and> length caps' = length caps"
proof (induction r arbitrary: s caps s' caps')
  case Eps
  then show ?case by simp
next
  case (Rune P ws)
  then have "class_step P ws s = Some s'" and "caps' = caps"
    by (auto split: option.splits)
  then show ?case by (simp add: class_step_suffix)
next
  case (Seq a b)
  from Seq.prems obtain s1 c1 where 1: "(s1, c1) \<in> set (rmatch a s caps)"
    and 2: "(s', caps') \<in> set (rmatch b s1 c1)" by auto
  from Seq.IH(1) [OF 1] Seq.IH(2) [OF 2] show ?case
    by (auto intro: suffix_order.trans)
next
  case (Alt a b)
  then show ?case by auto
next
  case (Opt a)
  then show ?case by auto
next
  case (Star P ws)
  then show ?case by (auto dest: star_greedy_suffix)
next
  case (StarLazy P ws)
  then show ?case by (auto dest: star_lazy_suffix)
next
  case (Group i a)
  from Group.prems obtain c1 where 1: "(s', c1) \<in> set (rmatch a s caps)"
    and "caps' = c1[i := take (length s - length s') s]" by auto
  with Group.IH [OF 1] show ?case by simp
next
  case EndText
  then show ?case by (auto split: if_splits)
qed

lemma match_at_sound:
  assumes "match_at r n s = Some (caps, rest)"
  shows "length caps = Suc n" and "suffix rest s"
proof -
  from assms obtain c0 more where hd: "rmatch r s (replicate (Suc n) []) = (rest, c0) # more"
    and caps: "caps = c0[0 := take (length s - length rest) s]"
    by (auto simp: match_at_def split: list.splits)
  then have "(rest, c0) \<in> set (rmatch r s (replicate (Suc n) []))" by simp
  from rmatch_sound [OF this] caps show "length caps = Suc n" and "suffix rest s" by simp_all
qed

lemma search_sound:
  "search r n s = Some (pre, caps, rest) \<Longrightarrow> length caps = Suc n \<and> length rest \<le> length s"
proof (induction s arbitrary: pre caps rest)
  case Nil
  then have m: "match_at r n [] = Some (caps, rest)" by (auto split: option.splits)
  from match_at_sound [OF m] show ?case by simp
next
  case (Cons c cs)
  show ?case
  proof (cases "match_at r n (c # cs)")
    case (Some m)
    with Cons.prems have m: "match_at r n (c # cs) = Some (caps, rest)" by (cases m) simp
    from match_at_sound [OF m] suffix_length_le [of rest "c # cs"] show ?thesis by simp
  next
    case None
    with Cons.prems obtain p where "search r n cs = Some (p, caps, rest)"
      by (auto split: option.splits)
    from Cons.IH [OF this] show ?thesis by simp
  qed
qed

lemma find_all_length: "m \<in> set (find_all r n s abut) \<Longrightarrow> length m = Suc n"
proof (induction r n s abut rule: find_all.induct)
  case (1 r n s abut)
  show ?case
  proof (cases "search r n s")
    case None
    with "1.prems" show ?thesis by (simp add: find_all.simps [of r n s])
  next
    case (Some res)
    obtain pre caps rest where res: "res = (pre, caps, rest)" by (cases res)
    from Some res have len: "length caps = Suc n" by (auto dest: search_sound)
    have fa: "find_all r n s abut =
        (if length rest < length s then caps # find_all r n rest True
         else (if abut then [] else [caps]) @
              (case s of [] \<Rightarrow> [] | _ # cs \<Rightarrow> find_all r n cs False))"
      using Some res by (simp add: find_all.simps [of r n s abut])
    show ?thesis
    proof (cases "length rest < length s")
      case True
      with "1.prems" fa have "m = caps \<or> m \<in> set (find_all r n rest True)" by simp
      with len "1.IH"(1) [OF Some res [symmetric] refl True] show ?thesis by auto
    next
      case False
      show ?thesis
      proof (cases s)
        case Nil
        with "1.prems" fa False have "m = caps" by (simp split: if_splits)
        with len show ?thesis by simp
      next
        case (Cons c cs)
        with "1.prems" fa False have "m = caps \<or> m \<in> set (find_all r n cs False)"
          by (auto split: if_splits)
        with len "1.IH"(2) [OF Some res [symmetric] refl False Cons] show ?thesis by auto
      qed
    qed
  qed
qed

lemma FindAllStringSubmatch_length:
  "m \<in> set (FindAllStringSubmatch r n s) \<Longrightarrow> length m = Suc n"
  by (simp add: FindAllStringSubmatch_def find_all_length)

section \<open>Upper case and search\<close>









section \<open>Join extractor\<close>

text \<open>Every fact comes from one match of the join pattern and one equality in its condition.\<close>

lemma ExtractJoinsFromSQL_fact:
  assumes "j \<in> set (ExtractJoinsFromSQL sqlDef sourceTable defaultDB defaultSchema useBrackets)"
  shows "\<exists>match \<in> set (FindAllStringSubmatch joinPattern 3 sqlDef).
         \<exists>colMatch \<in> set (FindAllStringSubmatch columnPattern 4 (TrimSpace (match ! 3))).
           FromTable j = sourceTable
         \<and> FromColumns j = [NormalizeBrackets (TrimSpace (colMatch ! 2))]
         \<and> ToTable j = StandardizeTableName (TrimSpace (match ! 1)) defaultDB defaultSchema useBrackets
         \<and> ToColumns j = [NormalizeBrackets (TrimSpace (colMatch ! 4))]
         \<and> JoinType j =
             (if Contains (ToUpper (match ! 0)) ''LEFT'' then ''LEFT''
              else if Contains (ToUpper (match ! 0)) ''RIGHT'' then ''RIGHT''
              else if Contains (ToUpper (match ! 0)) ''FULL'' then ''FULL''
              else ''INNER'')"
proof -
  from assms have ne: "sqlDef \<noteq> []"
    by (auto simp: ExtractJoinsFromSQL_def)
  with assms obtain match colMatch
    where m: "match \<in> set (FindAllStringSubmatch joinPattern 3 sqlDef)"
      and c: "colMatch \<in> set (FindAllStringSubmatch columnPattern 4 (TrimSpace (match ! 3)))"
      and j: "j = \<lparr>FromTable = sourceTable,
                  FromColumns = [NormalizeBrackets (TrimSpace (colMatch ! 2))],
                  ToTable = StandardizeTableName (TrimSpace (match ! 1)) defaultDB defaultSchema
                              useBrackets,
                  ToColumns = [NormalizeBrackets (TrimSpace (colMatch ! 4))],
                  JoinType =
                    (if Contains (ToUpper (match ! 0)) ''LEFT'' then ''LEFT''
                     else if Contains (ToUpper (match ! 0)) ''RIGHT'' then ''RIGHT''
                     else if Contains (ToUpper (match ! 0)) ''FULL'' then ''FULL''
                     else ''INNER''),
                  OnCondition =
                    TrimSpace (ReplaceAllString spacePattern
                      (ReplaceAll (ReplaceAll (TrimSpace (match ! 3)) (CHR 0x0A) '' '')
                         (CHR 0x0D) []) '' '')\<rparr>"
    by (auto simp: ExtractJoinsFromSQL_def Let_def split: if_splits)
  from j have "FromTable j = sourceTable
         \<and> FromColumns j = [NormalizeBrackets (TrimSpace (colMatch ! 2))]
         \<and> ToTable j = StandardizeTableName (TrimSpace (match ! 1)) defaultDB defaultSchema useBrackets
         \<and> ToColumns j = [NormalizeBrackets (TrimSpace (colMatch ! 4))]
         \<and> JoinType j =
             (if Contains (ToUpper (match ! 0)) ''LEFT'' then ''LEFT''
              else if Contains (ToUpper (match ! 0)) ''RIGHT'' then ''RIGHT''
              else if Contains (ToUpper (match ! 0)) ''FULL'' then ''FULL''
              else ''INNER'')"
    by simp
  with m c show ?thesis by blast
qed



text \<open>
  C5. \<open>ExtractJoinsFromSQL\<close> is total: its Go signature has no error result, no call
  in it can panic, and for every text it returns a list of facts, which may be
  empty. The empty text gives no fact, and so does every text in which the join
  pattern finds no clause.
\<close>

theorem ExtractJoinsFromSQL_total:
  "(\<exists>facts. ExtractJoinsFromSQL sqlDef sourceTable defaultDB defaultSchema useBrackets = facts)
   \<and> ExtractJoinsFromSQL [] sourceTable defaultDB defaultSchema useBrackets = []
   \<and> (FindAllStringSubmatch joinPattern 3 sqlDef = [] \<longrightarrow>
        ExtractJoinsFromSQL sqlDef sourceTable defaultDB defaultSchema useBrackets = [])"
  by (simp add: ExtractJoinsFromSQL_def)

section \<open>Relation deriver\<close>

lemma ExtractRelationsFromDefinitions_rel:
  assumes "r \<in> set (ExtractRelationsFromDefinitions tables defaultDB defaultSchema useBrackets)"
  shows "\<exists>table \<in> set tables.
           \<exists>j \<in> set (ExtractJoinsFromSQL (tbl_Def table) (tbl_Name table) defaultDB defaultSchema
                        useBrackets).
             r = virtualRelation j"
  using assms by (auto simp: ExtractRelationsFromDefinitions_def Let_def split: if_splits)

text \<open>
  C4. The two cardinalities of a derived relation depend on the join type of its
  fact alone: \<open>LEFT\<close> gives zero-or-one and zero-or-more, \<open>RIGHT\<close> gives zero-or-more
  and zero-or-one, every other value (\<open>INNER\<close> and \<open>FULL\<close> among them) exactly-one and
  zero-or-more; and every relation of \<open>ExtractRelationsFromDefinitions\<close> is derived
  so from a fact of one of the tables.
\<close>

theorem virtualRelation_cardinality:
  "(JoinType j = ''LEFT'' \<longrightarrow>
      (rel_Cardinality (virtualRelation j), rel_ParentCardinality (virtualRelation j))
        = (ZeroOrOne, ZeroOrMore))
   \<and> (JoinType j = ''RIGHT'' \<longrightarrow>
      (rel_Cardinality (virtualRelation j), rel_ParentCardinality (virtualRelation j))
        = (ZeroOrMore, ZeroOrOne))
   \<and> (JoinType j \<noteq> ''LEFT'' \<and> JoinType j \<noteq> ''RIGHT'' \<longrightarrow>
      (rel_Cardinality (virtualRelation j), rel_ParentCardinality (virtualRelation j))
        = (ExactlyOne, ZeroOrMore))
   \<and> (\<forall>r \<in> set (ExtractRelationsFromDefinitions tables defaultDB defaultSchema useBrackets).
        \<exists>table \<in> set tables.
          \<exists>j' \<in> set (ExtractJoinsFromSQL (tbl_Def table) (tbl_Name table) defaultDB defaultSchema
                        useBrackets).
            r = virtualRelation j')"
proof -
  have "JoinType j = ''LEFT'' \<longrightarrow>
      (rel_Cardinality (virtualRelation j), rel_ParentCardinality (virtualRelation j))
        = (ZeroOrOne, ZeroOrMore)"
    by (simp add: virtualRelation_def Let_def)
  moreover have "JoinType j = ''RIGHT'' \<longrightarrow>
      (rel_Cardinality (virtualRelation j), rel_ParentCardinality (virtualRelation j))
        = (ZeroOrMore, ZeroOrOne)"
    by (simp add: virtualRelation_def Let_def)
  moreover have "JoinType j \<noteq> ''LEFT'' \<and> JoinType j \<noteq> ''RIGHT'' \<longrightarrow>
      (rel_Cardinality (virtualRelation j), rel_ParentCardinality (virtualRelation j))
        = (ExactlyOne, ZeroOrMore)"
    by (simp add: virtualRelation_def Let_def)
  ultimately show ?thesis
    using ExtractRelationsFromDefinitions_rel [of _ tables defaultDB defaultSchema useBrackets]
    by blast
qed

text \<open>
  C8. Every relation of \<open>ExtractRelationsFromDefinitions\<close> is virtual and has exactly
  one column and one parent column: each equality of a condition gives a fact of
  its own (lemma \<open>ExtractJoinsFromSQL_fact\<close>), never grouped with the others.
\<close>

theorem ExtractRelationsFromDefinitions_virtual_single:
  assumes "r \<in> set (ExtractRelationsFromDefinitions tables defaultDB defaultSchema useBrackets)"
  shows "rel_Virtual r \<and> length (rel_Columns r) = 1 \<and> length (rel_ParentColumns r) = 1"
proof -
  from ExtractRelationsFromDefinitions_rel [OF assms] obtain table :: Table and j
    where j: "j \<in> set (ExtractJoinsFromSQL (tbl_Def table) (tbl_Name table) defaultDB
                          defaultSchema useBrackets)"
      and r: "r = virtualRelation j" by blast
  from ExtractJoinsFromSQL_fact [OF j]
  have "length (FromColumns j) = 1" "length (ToColumns j) = 1" by auto
  with r show ?thesis by (simp add: virtualRelation_def Let_def)
qed

section \<open>The example of the specification\<close>

lemmas rx_eval = joinPattern_def columnPattern_def spacePattern_def Plus_def PlusLazy_def
  seqs_def alts_def chr_def ci_def lit_ci_def space_cls_def word_cls_def fold_runes_def
  ascii_upper_def ascii_lower_def star_greedy.simps star_lazy.simps match_at_def
  find_all.simps FindAllStringSubmatch_def ReplaceAllString.simps Let_def eval_nat_numeral

lemma example_matches:
  "FindAllStringSubmatch joinPattern 3 example_sql =
     [[''INNER JOIN Customers c ON o.customer_id = c.id'', ''Customers'', ''c'',
       ''o.customer_id = c.id'']]"
  by (simp add: rx_eval example_sql_def)

lemma example_left_matches:
  "FindAllStringSubmatch joinPattern 3 example_sql_left =
     [[''LEFT JOIN Customers c ON o.customer_id = c.id'', ''Customers'', ''c'',
       ''o.customer_id = c.id'']]"
  by (simp add: rx_eval example_sql_left_def)

lemma example_columns:
  "FindAllStringSubmatch columnPattern 4 ''o.customer_id = c.id'' =
     [[''o.customer_id = c.id'', ''o'', ''customer_id'', ''c'', ''id'']]"
  by (simp add: rx_eval)

lemma example_spaces:
  "ReplaceAllString spacePattern ''o.customer_id = c.id'' '' '' = ''o.customer_id = c.id''"
  by (simp add: rx_eval)

lemma example_trim:
  "TrimSpace ''Customers'' = ''Customers''"
  "TrimSpace ''o.customer_id = c.id'' = ''o.customer_id = c.id''"
  "TrimSpace ''customer_id'' = ''customer_id''"
  "TrimSpace ''id'' = ''id''"
  "TrimSpace ''DV'' = ''DV''"
  "TrimSpace ''dbo'' = ''dbo''"
  by (rule TrimSpace_id, simp add: no_outer_space_def space_runes_def suffix_to_prefix)+

lemma example_table:
  "StandardizeTableName ''Customers'' ''DV'' ''dbo'' True = ''[DV].[dbo].[Customers]''"
  by (simp add: StandardizeTableName_def ParseQualifiedName_def NormalizeBrackets_filter
      BuildQualifiedName_def BracketIdentifier_def example_trim HasPrefix_def)

lemma example_facts:
  "ExtractJoinsFromSQL example_sql ''Orders'' ''DV'' ''dbo'' True =
     [\<lparr>FromTable = ''Orders'', FromColumns = [''customer_id''],
       ToTable = ''[DV].[dbo].[Customers]'', ToColumns = [''id''],
       JoinType = ''INNER'', OnCondition = ''o.customer_id = c.id''\<rparr>]"
proof -
  have ne: "example_sql \<noteq> []" by (simp add: example_sql_def)
  show ?thesis
    by (simp add: ExtractJoinsFromSQL_def ne example_matches example_columns example_trim
        example_table ascii_upper_def example_spaces Contains_def sublist_Cons_right
        NormalizeBrackets_filter ReplaceAll_def Let_def)
qed

lemma example_left_facts:
  "ExtractJoinsFromSQL example_sql_left ''Orders'' ''DV'' ''dbo'' True =
     [\<lparr>FromTable = ''Orders'', FromColumns = [''customer_id''],
       ToTable = ''[DV].[dbo].[Customers]'', ToColumns = [''id''],
       JoinType = ''LEFT'', OnCondition = ''o.customer_id = c.id''\<rparr>]"
proof -
  have ne: "example_sql_left \<noteq> []" by (simp add: example_sql_left_def)
  show ?thesis
    by (simp add: ExtractJoinsFromSQL_def ne example_left_matches example_columns example_trim
        example_table ascii_upper_def example_spaces Contains_def sublist_Cons_right
        NormalizeBrackets_filter ReplaceAll_def Let_def)
qed


text \<open>
  C3. For the text \<open>... FROM Orders o INNER JOIN Customers c ON o.customer_id = c.id\<close>,
  source table \<open>Orders\<close>, default database \<open>DV\<close>, default schema \<open>dbo\<close> and brackets,
  \<open>ExtractJoinsFromSQL\<close> returns one fact, with join type \<open>INNER\<close>, joined table
  \<open>[DV].[dbo].[Customers]\<close>, and the columns \<open>customer_id\<close> and \<open>id\<close>.
\<close>

theorem ExtractJoinsFromSQL_example:
  "\<exists>j. ExtractJoinsFromSQL example_sql ''Orders'' ''DV'' ''dbo'' True = [j]
       \<and> JoinType j = ''INNER'' \<and> ToTable j = ''[DV].[dbo].[Customers]''
       \<and> FromColumns j = [''customer_id''] \<and> ToColumns j = [''id'']
       \<and> FromTable j = ''Orders''"
  by (simp add: example_facts)


lemma no_join_matches: "FindAllStringSubmatch joinPattern 3 no_join_sql = []"
  by (simp add: rx_eval no_join_sql_def)

lemma no_alias_matches: "FindAllStringSubmatch joinPattern 3 no_alias_sql = []"
  by (simp add: rx_eval no_alias_sql_def)

theorem ExtractJoinsFromSQL_total_witness:
  "FindAllStringSubmatch joinPattern 3 no_join_sql = []
   \<and> ExtractJoinsFromSQL no_join_sql ''Orders'' ''DV'' ''dbo'' True = []
   \<and> ExtractJoinsFromSQL no_alias_sql ''a'' ''DV'' ''dbo'' True = []
   \<and> ExtractJoinsFromSQL [] ''Orders'' ''DV'' ''dbo'' True = []"
  using ExtractJoinsFromSQL_total [of no_join_sql "''Orders''" "''DV''" "''dbo''" True]
    ExtractJoinsFromSQL_total [of no_alias_sql "''a''" "''DV''" "''dbo''" True]
    no_join_matches no_alias_matches
  by simp

lemma example_relations:
  "ExtractRelationsFromDefinitions [example_view] ''DV'' ''dbo'' True
     = [virtualRelation (example_fact ''LEFT'')]"
proof -
  have ne: "example_sql_left \<noteq> []" by (simp add: example_sql_left_def)
  show ?thesis
    by (simp add: ExtractRelationsFromDefinitions_def example_view_def example_left_facts
        example_fact_def ne)
qed

theorem virtualRelation_cardinality_witness:
  "(rel_Cardinality (virtualRelation (example_fact ''LEFT'')),
    rel_ParentCardinality (virtualRelation (example_fact ''LEFT''))) = (ZeroOrOne, ZeroOrMore)
   \<and> (rel_Cardinality (virtualRelation (example_fact ''RIGHT'')),
    rel_ParentCardinality (virtualRelation (example_fact ''RIGHT''))) = (ZeroOrMore, ZeroOrOne)
   \<and> (rel_Cardinality (virtualRelation (example_fact ''INNER'')),
    rel_ParentCardinality (virtualRelation (example_fact ''INNER''))) = (ExactlyOne, ZeroOrMore)
   \<and> (rel_Cardinality (virtualRelation (example_fact ''FULL'')),
    rel_ParentCardinality (virtualRelation (example_fact ''FULL''))) = (ExactlyOne, ZeroOrMore)
   \<and> (\<exists>j \<in> set (ExtractJoinsFromSQL example_sql_left ''Orders'' ''DV'' ''dbo'' True).
         virtualRelation (example_fact ''LEFT'') = virtualRelation j)"
proof -
  have t: "JoinType (example_fact ''LEFT'') = ''LEFT''"
    "JoinType (example_fact ''RIGHT'') = ''RIGHT''"
    "JoinType (example_fact ''INNER'') \<noteq> ''LEFT'' \<and> JoinType (example_fact ''INNER'') \<noteq> ''RIGHT''"
    "JoinType (example_fact ''FULL'') \<noteq> ''LEFT'' \<and> JoinType (example_fact ''FULL'') \<noteq> ''RIGHT''"
    by (simp_all add: example_fact_def)
  have r: "virtualRelation (example_fact ''LEFT'')
      \<in> set (ExtractRelationsFromDefinitions [example_view] ''DV'' ''dbo'' True)"
    by (simp add: example_relations)
  have v: "tbl_Def example_view = example_sql_left" "tbl_Name example_view = ''Orders''"
    by (simp_all add: example_view_def)
  note c = virtualRelation_cardinality [of _ "[example_view]" "''DV''" "''dbo''" True]
  from c [of "example_fact ''LEFT''"] t(1)
  have 1: "(rel_Cardinality (virtualRelation (example_fact ''LEFT'')),
    rel_ParentCardinality (virtualRelation (example_fact ''LEFT''))) = (ZeroOrOne, ZeroOrMore)"
    by blast
  from c [of "example_fact ''RIGHT''"] t(2)
  have 2: "(rel_Cardinality (virtualRelation (example_fact ''RIGHT'')),
    rel_ParentCardinality (virtualRelation (example_fact ''RIGHT''))) = (ZeroOrMore, ZeroOrOne)"
    by blast
  from c [of "example_fact ''INNER''"] t(3)
  have 3: "(rel_Cardinality (virtualRelation (example_fact ''INNER'')),
    rel_ParentCardinality (virtualRelation (example_fact ''INNER''))) = (ExactlyOne, ZeroOrMore)"
    by blast
  from c [of "example_fact ''FULL''"] t(4)
  have 4: "(rel_Cardinality (virtualRelation (example_fact ''FULL'')),
    rel_ParentCardinality (virtualRelation (example_fact ''FULL''))) = (ExactlyOne, ZeroOrMore)"
    by blast
  from c [of "example_fact ''LEFT''"] r
  have "\<exists>table \<in> set [example_view].
          \<exists>j \<in> set (ExtractJoinsFromSQL (tbl_Def table) (tbl_Name table) ''DV'' ''dbo'' True).
            virtualRelation (example_fact ''LEFT'') = virtualRelation j"
    by blast
  then have 5: "\<exists>j \<in> set (ExtractJoinsFromSQL example_sql_left ''Orders'' ''DV'' ''dbo'' True).
         virtualRelation (example_fact ''LEFT'') = virtualRelation j"
    by (simp add: v)
  from 1 2 3 4 5 show ?thesis by (intro conjI)
qed

theorem ExtractRelationsFromDefinitions_virtual_single_witness:
  "rel_Virtual (virtualRelation (example_fact ''LEFT''))
   \<and> length (rel_Columns (virtualRelation (example_fact ''LEFT''))) = 1
   \<and> length (rel_ParentColumns (virtualRelation (example_fact ''LEFT''))) = 1
   \<and> ExtractRelationsFromDefinitions [example_view] ''DV'' ''dbo'' True
       = [virtualRelation (example_fact ''LEFT'')]"
proof -
  have r: "virtualRelation (example_fact ''LEFT'')
      \<in> set (ExtractRelationsFromDefinitions [example_view] ''DV'' ''dbo'' True)"
    by (simp add: example_relations)
  from ExtractRelationsFromDefinitions_virtual_single [OF r] example_relations
  show ?thesis by simp
qed

section \<open>Merge orchestrator\<close>

lemma count_foldl:
  "foldl (\<lambda>n x. if P x then n + 1 else n) (a::int) xs = a + int (length (filter P xs))"
  by (induction xs arbitrary: a) simp_all

lemma merge_file_cross:
  "CrossDBRelations (snd (merge_file unicodeUpper config jsonFile schema ms)) =
     CrossDBRelations (snd ms) +
     int (length (filter crossDatabase
            (updateRelations (sch_Relations schema) (dbPrefix_of unicodeUpper config jsonFile)
               (schemaName_of config schema) (UseBrackets config))))"
  by (simp add: merge_file_def Let_def count_foldl)

text \<open>What one file adds to the counter, and nothing when it cannot be loaded.\<close>

lemma merge_files_cross:
  "merge_files unicodeUpper load config ms jsonFiles = Inr (merged, stats) \<Longrightarrow>
     CrossDBRelations stats =
       CrossDBRelations (snd ms) +
       (\<Sum>jsonFile\<leftarrow>jsonFiles.
          case load jsonFile of
            Inl err \<Rightarrow> 0
          | Inr schema \<Rightarrow>
              int (length (filter crossDatabase
                     (updateRelations (sch_Relations schema) (dbPrefix_of unicodeUpper config jsonFile)
                        (schemaName_of config schema) (UseBrackets config)))))"
proof (induction jsonFiles arbitrary: ms)
  case Nil
  then show ?case by simp
next
  case (Cons jsonFile rest)
  show ?case
  proof (cases "load jsonFile")
    case (Inl err)
    with Cons.prems show ?thesis by simp
  next
    case (Inr schema)
    with Cons.prems have "merge_files unicodeUpper load config (merge_file unicodeUpper config jsonFile schema ms) rest
        = Inr (merged, stats)" by simp
    from Cons.IH [OF this] Inr show ?thesis
      by (simp add: merge_file_cross)
  qed
qed

text \<open>
  C7. During a merge the cross-database relation counter goes up by exactly one for
  each relation that a loaded document brings with it and whose two table names,
  after standardization, parse to database components that are both non-empty and
  differ: whenever \<open>MergeSchemas\<close> returns statistics, the counter is the number of such
  relations among the standardized relations of the documents, summed over the
  files. The relations extracted from view definitions are appended after the
  counting loop and leave the counter as it is, whatever their databases.
\<close>

theorem MergeSchemas_cross_database:
  assumes "MergeSchemas unicodeUpper load repair jsonFiles config (Inr (merged, stats))"
  shows "CrossDBRelations stats =
       (\<Sum>jsonFile\<leftarrow>jsonFiles.
          case load jsonFile of
            Inl err \<Rightarrow> 0
          | Inr schema \<Rightarrow>
              int (length (filter crossDatabase
                     (updateRelations (sch_Relations schema)
                        (dbPrefix_of unicodeUpper (config_of jsonFiles config) jsonFile)
                        (schemaName_of (config_of jsonFiles config) schema)
                        (UseBrackets (config_of jsonFiles config))))))"
proof -
  let ?cfg = "config_of jsonFiles config"
  let ?m0 = "\<lparr>sch_Name = Name ?cfg, sch_Desc = Description ?cfg, sch_Tables = [],
              sch_Relations = [], sch_Functions = [], sch_Driver = None\<rparr>"
  let ?s0 = "\<lparr>TotalTables = 0, TotalViews = 0, TotalRelations = 0, TotalFunctions = 0,
              Databases = [], CrossDBRelations = 0, ExtractedRelations = 0,
              DeduplicatedCount = 0\<rparr>"
  from assms have a: "case merge_files unicodeUpper load ?cfg (?m0, ?s0) jsonFiles of
      Inl err \<Rightarrow> Inr (merged, stats) = Inl err
    | Inr (m, st) \<Rightarrow>
        (\<exists>d. DeduplicateRelations (sch_Relations m) d \<and>
           Inr (merged, stats) =
             (case repair (m\<lparr>sch_Relations := d\<rparr>) of
                Inl err \<Rightarrow> Inl (FailedToRepair err)
              | Inr repaired \<Rightarrow>
                  Inr (repaired, st\<lparr>DeduplicatedCount :=
                         int (length (sch_Relations m)) - int (length d)\<rparr>)))"
    unfolding MergeSchemas_def Let_def .
  obtain m st where mf: "merge_files unicodeUpper load ?cfg (?m0, ?s0) jsonFiles = Inr (m, st)"
  proof (cases "merge_files unicodeUpper load ?cfg (?m0, ?s0) jsonFiles")
    case (Inl err)
    with a show ?thesis by simp
  next
    case (Inr p)
    with that show ?thesis by (cases p) simp
  qed
  with a obtain d where d: "Inr (merged, stats) =
             (case repair (m\<lparr>sch_Relations := d\<rparr>) of
                Inl err \<Rightarrow> Inl (FailedToRepair err)
              | Inr repaired \<Rightarrow>
                  Inr (repaired, st\<lparr>DeduplicatedCount :=
                         int (length (sch_Relations m)) - int (length d)\<rparr>))"
    by auto
  have "stats = st\<lparr>DeduplicatedCount := int (length (sch_Relations m)) - int (length d)\<rparr>"
  proof (cases "repair (m\<lparr>sch_Relations := d\<rparr>)")
    case (Inl err)
    with d show ?thesis by simp
  next
    case (Inr repaired)
    with d show ?thesis by simp
  qed
  then have "CrossDBRelations stats = CrossDBRelations st" by simp
  with merge_files_cross [OF mf] show ?thesis by simp
qed


section \<open>The merge example\<close>

text \<open>
  Two documents of one table each, \<open>dv_schema.json\<close> and \<open>sa_schema.json\<close>; the relation
  of the first references the table of the second as \<open>SA.dbo.Customers\<close>. The file names
  are ASCII, so that the Unicode mapping is not consulted.
\<close>

lemma example_std:
  "StandardizeTableName ''Orders'' ''DV'' ''dbo'' True = ''[DV].[dbo].[Orders]''"
  "StandardizeTableName ''Customers'' ''SA'' ''dbo'' True = ''[SA].[dbo].[Customers]''"
  "StandardizeTableName ''SA.dbo.Customers'' ''SA'' ''dbo'' True = ''[SA].[dbo].[Customers]''"
  by (simp_all add: StandardizeTableName_def ParseQualifiedName_def NormalizeBrackets_def
      ReplaceAll_def BuildQualifiedName_def BracketIdentifier_def HasPrefix_def
      TrimSpace_def trim_left.simps trim_right.simps space_runes_def suffix_to_prefix)

lemma example_parse:
  "Database (ParseQualifiedName ''Orders'') = []"
  "Database (ParseQualifiedName ''SA.dbo.Customers'') = ''SA''"
  "Database (ParseQualifiedName ''[DV].[dbo].[Orders]'') = ''DV''"
  "Database (ParseQualifiedName ''[SA].[dbo].[Customers]'') = ''SA''"
  by (simp_all add: ParseQualifiedName_def NormalizeBrackets_def ReplaceAll_def)

lemma example_prefix:
  "ExtractDatabaseName ToUpper ''dv_schema.json'' = ''DV''"
  "ExtractDatabaseName ToUpper ''sa_schema.json'' = ''SA''"
  by (simp_all add: ExtractDatabaseName_def LastIndex_def TrimSuffix_def HasSuffix_def
      suffix_to_prefix strings_ToUpper_def isASCII_def ascii_upper_def)

lemma example_config:
  "config_of [''dv_schema.json'', ''sa_schema.json''] None =
     \<lparr>Name = ''Combined Schema'', Description = ''Combined schema from 2 databases'',
      DefaultSchema = ''dbo'', UseBrackets = True, ExtractViewRelations = True,
      DatabaseMapping = Map.empty\<rparr>"
  by (simp add: config_of_def decimal.simps)

lemma example_updated:
  "updateRelations (sch_Relations example_dv) ''DV'' ''dbo'' True =
     [test_relation ''[DV].[dbo].[Orders]'' ''customer_id'' ''[SA].[dbo].[Customers]'' ''id'' False]"
  "updateRelations (sch_Relations example_sa) ''SA'' ''dbo'' True = []"
  by (simp_all add: updateRelations_def example_dv_def example_sa_def test_relation_def
      Table_named_def example_parse example_std)

lemma example_cross:
  "crossDatabase
     (test_relation ''[DV].[dbo].[Orders]'' ''customer_id'' ''[SA].[dbo].[Customers]'' ''id'' False)"
  by (simp add: crossDatabase_def test_relation_def Table_named_def example_parse)

lemma example_merge_files:
  "merge_files ToUpper example_load (config_of [''dv_schema.json'', ''sa_schema.json''] None)
     (\<lparr>sch_Name = ''Combined Schema'', sch_Desc = ''Combined schema from 2 databases'',
       sch_Tables = [], sch_Relations = [], sch_Functions = [], sch_Driver = None\<rparr>,
      \<lparr>TotalTables = 0, TotalViews = 0, TotalRelations = 0, TotalFunctions = 0,
       Databases = [], CrossDBRelations = 0, ExtractedRelations = 0, DeduplicatedCount = 0\<rparr>)
     [''dv_schema.json'', ''sa_schema.json'']
   = Inr (example_merged, example_stats)"
  by (simp add: example_config example_load_def merge_file_def Let_def dbPrefix_of_def
      schemaName_of_def example_prefix example_updated example_cross
      updateTableNames_def updateFunctions_def ExtractRelationsFromDefinitions_def
      example_dv_def [THEN arg_cong, of sch_Tables] example_std
      example_merged_def example_stats_def Table_named_def
      example_dv_def [THEN arg_cong, of sch_Functions] example_dv_def [THEN arg_cong, of sch_Driver]
      example_sa_def [THEN arg_cong, of sch_Tables]
      example_sa_def [THEN arg_cong, of sch_Functions] example_sa_def [THEN arg_cong, of sch_Driver])


lemma example_dedup:
  "DeduplicateRelations (sch_Relations example_merged) (sch_Relations example_merged)"
  by (simp add: DeduplicateRelations_def dedup_seen_def dedup_step_def example_merged_def
      relKey_of_def)

lemma example_outcome:
  "MergeSchemas ToUpper example_load Inr [''dv_schema.json'', ''sa_schema.json''] None
     (Inr (example_merged, example_stats))"
proof -
  have c: "Name (config_of [''dv_schema.json'', ''sa_schema.json''] None) = ''Combined Schema''"
    "Description (config_of [''dv_schema.json'', ''sa_schema.json''] None) =
       ''Combined schema from 2 databases''"
    by (simp_all add: example_config)
  have s: "example_stats\<lparr>DeduplicatedCount := 0\<rparr> = example_stats"
    by (simp add: example_stats_def)
  have m: "example_merged\<lparr>sch_Relations := sch_Relations example_merged\<rparr> = example_merged"
    by simp
  show ?thesis
    unfolding MergeSchemas_def Let_def c example_merge_files
    using example_dedup by (auto simp add: s intro!: exI [of _ "sch_Relations example_merged"])
qed

theorem MergeSchemas_cross_database_witness:
  "MergeSchemas ToUpper example_load Inr [''dv_schema.json'', ''sa_schema.json''] None
     (Inr (example_merged, example_stats)) \<and>
   CrossDBRelations example_stats = 1 \<and>
   (\<Sum>jsonFile\<leftarrow>[''dv_schema.json'', ''sa_schema.json''].
      case example_load jsonFile of Inl err \<Rightarrow> 0
      | Inr schema \<Rightarrow> int (length (filter crossDatabase
          (updateRelations (sch_Relations schema)
             (dbPrefix_of ToUpper (config_of [''dv_schema.json'', ''sa_schema.json''] None) jsonFile)
             (schemaName_of (config_of [''dv_schema.json'', ''sa_schema.json''] None) schema)
             (UseBrackets (config_of [''dv_schema.json'', ''sa_schema.json''] None)))))) = 1"
proof -
  have e: "CrossDBRelations example_stats = 1"
    by (simp add: example_stats_def)
  from MergeSchemas_cross_database [OF example_outcome] e example_outcome
  show ?thesis by simp
qed

section \<open>A view that joins another database\<close>

lemma cross_matches:
  "FindAllStringSubmatch joinPattern 3 cross_sql =
     [[''JOIN SA.dbo.Customers c ON o.customer_id = c.id'', ''SA.dbo.Customers'', ''c'',
       ''o.customer_id = c.id'']]"
  by (simp add: rx_eval cross_sql_def)

lemma cross_std:
  "StandardizeTableName ''OrderView'' ''DV'' ''dbo'' True = ''[DV].[dbo].[OrderView]''"
  "StandardizeTableName ''SA.dbo.Customers'' ''DV'' ''dbo'' True = ''[SA].[dbo].[Customers]''"
  by (simp_all add: StandardizeTableName_def ParseQualifiedName_def NormalizeBrackets_def
      ReplaceAll_def BuildQualifiedName_def BracketIdentifier_def HasPrefix_def
      TrimSpace_def trim_left.simps trim_right.simps space_runes_def suffix_to_prefix)

lemma cross_trim:
  "TrimSpace ''SA.dbo.Customers'' = ''SA.dbo.Customers''"
  "TrimSpace ''o.customer_id = c.id'' = ''o.customer_id = c.id''"
  "TrimSpace ''customer_id'' = ''customer_id''"
  "TrimSpace ''id'' = ''id''"
  by (simp_all add: TrimSpace_def trim_left.simps trim_right.simps space_runes_def
      suffix_to_prefix)

lemma cross_facts:
  "ExtractJoinsFromSQL cross_sql ''[DV].[dbo].[OrderView]'' ''DV'' ''dbo'' True =
     [\<lparr>FromTable = ''[DV].[dbo].[OrderView]'', FromColumns = [''customer_id''],
       ToTable = ''[SA].[dbo].[Customers]'', ToColumns = [''id''],
       JoinType = ''INNER'', OnCondition = ''o.customer_id = c.id''\<rparr>]"
proof -
  have ne: "cross_sql \<noteq> []" by (simp add: cross_sql_def)
  show ?thesis
    by (simp add: ExtractJoinsFromSQL_def ne cross_matches example_columns cross_trim
        cross_std ascii_upper_def example_spaces Contains_def sublist_Cons_right
        NormalizeBrackets_def ReplaceAll_def Let_def)
qed

lemma cross_extracted:
  "ExtractRelationsFromDefinitions
     [(Table_named ''[DV].[dbo].[OrderView]'')\<lparr>tbl_Type := ''VIEW'', tbl_Def := cross_sql\<rparr>]
     ''DV'' ''dbo'' True = [cross_relation]"
proof -
  have ne: "cross_sql \<noteq> []" by (simp add: cross_sql_def)
  show ?thesis
    by (simp add: ExtractRelationsFromDefinitions_def Table_named_def cross_facts ne
        cross_relation_def)
qed

lemma cross_config:
  "config_of [''dv_schema.json''] None =
     \<lparr>Name = ''Combined Schema'', Description = ''Combined schema from 1 databases'',
      DefaultSchema = ''dbo'', UseBrackets = True, ExtractViewRelations = True,
      DatabaseMapping = Map.empty\<rparr>"
  by (simp add: config_of_def decimal.simps)

lemma cross_tables:
  "updateTableNames (sch_Tables cross_doc) ''DV'' ''dbo'' True =
     [(Table_named ''[DV].[dbo].[OrderView]'')\<lparr>tbl_Type := ''VIEW'', tbl_Def := cross_sql\<rparr>]"
  by (simp add: updateTableNames_def cross_doc_def Table_named_def cross_std)

lemma cross_merge_files:
  "merge_files ToUpper cross_load (config_of [''dv_schema.json''] None)
     (\<lparr>sch_Name = ''Combined Schema'', sch_Desc = ''Combined schema from 1 databases'',
       sch_Tables = [], sch_Relations = [], sch_Functions = [], sch_Driver = None\<rparr>,
      \<lparr>TotalTables = 0, TotalViews = 0, TotalRelations = 0, TotalFunctions = 0,
       Databases = [], CrossDBRelations = 0, ExtractedRelations = 0, DeduplicatedCount = 0\<rparr>)
     [''dv_schema.json'']
   = Inr (cross_merged, cross_stats)"
proof -
  have d: "sch_Relations cross_doc = []" "sch_Functions cross_doc = []"
    "sch_Driver cross_doc = None"
    by (simp_all add: cross_doc_def)
  show ?thesis
    by (simp add: cross_config cross_load_def merge_file_def Let_def dbPrefix_of_def
        schemaName_of_def example_prefix cross_tables cross_extracted d
        updateRelations_def updateFunctions_def cross_merged_def cross_stats_def)
qed

lemma cross_dedup:
  "DeduplicateRelations (sch_Relations cross_merged) (sch_Relations cross_merged)"
  by (simp add: DeduplicateRelations_def dedup_seen_def dedup_step_def cross_merged_def
      relKey_of_def)

lemma cross_outcome:
  "MergeSchemas ToUpper cross_load Inr [''dv_schema.json''] None
     (Inr (cross_merged, cross_stats))"
proof -
  have c: "Name (config_of [''dv_schema.json''] None) = ''Combined Schema''"
    "Description (config_of [''dv_schema.json''] None) = ''Combined schema from 1 databases''"
    by (simp_all add: cross_config)
  have s: "cross_stats\<lparr>DeduplicatedCount := 0\<rparr> = cross_stats"
    by (simp add: cross_stats_def)
  show ?thesis
    unfolding MergeSchemas_def Let_def c cross_merge_files
    using cross_dedup by (auto simp add: s intro!: exI [of _ "sch_Relations cross_merged"])
qed

lemma cross_relation_crosses: "crossDatabase cross_relation"
  by (simp add: crossDatabase_def cross_relation_def virtualRelation_def Table_named_def
      ParseQualifiedName_def NormalizeBrackets_def ReplaceAll_def Let_def)

text \<open>
  The claim as it is written fails for a relation that comes from a view: merging the
  one document \<open>dv_schema.json\<close>, whose view \<open>OrderView\<close> joins \<open>SA.dbo.Customers\<close>, returns
  a schema whose only relation goes from database \<open>DV\<close> to database \<open>SA\<close>, and a counter
  of zero.
\<close>

theorem MergeSchemas_cross_database_counterexample:
  "MergeSchemas ToUpper cross_load Inr [''dv_schema.json''] None
     (Inr (cross_merged, cross_stats)) \<and>
   sch_Relations cross_merged = [cross_relation] \<and>
   Database (ParseQualifiedName (tbl_Name (rel_Table cross_relation))) = ''DV'' \<and>
   Database (ParseQualifiedName (tbl_Name (rel_ParentTable cross_relation))) = ''SA'' \<and>
   crossDatabase cross_relation \<and>
   CrossDBRelations cross_stats = 0"
proof -
  have "sch_Relations cross_merged = [cross_relation]"
    by (simp add: cross_merged_def)
  moreover have "Database (ParseQualifiedName (tbl_Name (rel_Table cross_relation))) = ''DV''"
    by (simp add: cross_relation_def virtualRelation_def Table_named_def
        ParseQualifiedName_def NormalizeBrackets_def ReplaceAll_def Let_def)
  moreover have
    "Database (ParseQualifiedName (tbl_Name (rel_ParentTable cross_relation))) = ''SA''"
    by (simp add: cross_relation_def virtualRelation_def Table_named_def
        ParseQualifiedName_def NormalizeBrackets_def ReplaceAll_def Let_def)
  moreover have "CrossDBRelations cross_stats = 0"
    by (simp add: cross_stats_def)
  ultimately show ?thesis
    using cross_outcome cross_relation_crosses by simp
qed

end
